theory Spec2Isabelle
  imports Main "HOL-Library.Sublist"
begin

section \<open>Characters and strings\<close>

text \<open>
  A Python \<open>str\<close> is modelled as a \<open>string\<close>; a \<open>char\<close> stands for the code
  point of the same number, so the model covers text whose code points lie below 256.
  On these code points \<open>str.isspace\<close> (used by \<open>str.strip\<close> and by the pattern
  \<open>\s\<close>) holds for 9 to 13, 28 to 32, 133 and 160, the pattern \<open>\d\<close> matches the ten
  ASCII digits only, and \<open>str.lower\<close> moves A to Z and the accented capitals 192 to
  222 (215 apart) up by 32.
\<close>

definition is_space :: "char \<Rightarrow> bool" where
  "is_space c = (let n = (of_char c :: nat) in (9 \<le> n \<and> n \<le> 13) \<or> (28 \<le> n \<and> n \<le> 32) \<or> n = 133 \<or> n = 160)"

definition is_digit :: "char \<Rightarrow> bool" where
  "is_digit c = (let n = (of_char c :: nat) in 48 \<le> n \<and> n \<le> 57)"

definition lower_char :: "char \<Rightarrow> char" where
  "lower_char c = (let n = (of_char c :: nat) in
     if (65 \<le> n \<and> n \<le> 90) \<or> (192 \<le> n \<and> n \<le> 222 \<and> n \<noteq> 215) then char_of (n + 32) else c)"

definition lower :: "string \<Rightarrow> string" where
  "lower s = map lower_char s"

definition strip :: "string \<Rightarrow> string" where
  "strip s = rev (dropWhile is_space (rev (dropWhile is_space s)))"

section \<open>The regular expressions of the reply parser\<close>

text \<open>
  \<open>re.search\<close> is a backtracking matcher: it tries the start positions from left to
  right and, at one position, the alternatives of the pattern in priority order (a greedy
  repetition the longest first, a lazy one the shortest first, the left branch of
  \<open>|\<close> first). \<open>matches\<close> lists the ways a pattern matches a prefix of the input in
  exactly that order, each with the text of capture group 1 (if the group took part) and
  the remaining input; the match that \<open>re.search\<close> reports is the head of the list.
  All three patterns are compiled with \<open>re.IGNORECASE\<close>, so a literal compares
  lower-cased characters; \<open>Any\<close> is the dot under \<open>re.DOTALL\<close>.
\<close>

datatype cls = Space | Digit | Any | OneOf string

fun in_cls :: "cls \<Rightarrow> char \<Rightarrow> bool" where
  "in_cls Space c = is_space c"
| "in_cls Digit c = is_digit c"
| "in_cls Any c = True"
| "in_cls (OneOf cs) c = (c \<in> set cs)"

datatype re =
    Lit string
  | Rep cls nat "nat option" bool
  | Group re
  | Seq re re
  | Alt re re
  | Eos

definition Star :: "cls \<Rightarrow> re" where
  "Star c = Rep c 0 None True"

definition LazyStar :: "cls \<Rightarrow> re" where
  "LazyStar c = Rep c 0 None False"

definition Opt :: "cls \<Rightarrow> re" where
  "Opt c = Rep c 0 (Some 1) True"

text \<open>A literal of the pattern against the input, character by character.\<close>

fun ci_prefix :: "string \<Rightarrow> string \<Rightarrow> bool" where
  "ci_prefix [] s = True"
| "ci_prefix (a # l) [] = False"
| "ci_prefix (a # l) (c # s) = (lower_char c = lower_char a \<and> ci_prefix l s)"

text \<open>
  The numbers of characters that a repetition of a character class, between \<open>lo\<close> and
  \<open>hi\<close> times, may take from the input, in the order in which the matcher tries them.
\<close>

definition counts :: "cls \<Rightarrow> nat \<Rightarrow> nat option \<Rightarrow> bool \<Rightarrow> string \<Rightarrow> nat list" where
  "counts c lo hi greedy s =
     (let m = length (takeWhile (in_cls c) s);
          top = (case hi of None \<Rightarrow> m | Some h \<Rightarrow> min h m);
          ns = [lo ..< Suc top]
      in if greedy then rev ns else ns)"

fun matches :: "re \<Rightarrow> string \<Rightarrow> (string option \<times> string) list" where
  "matches (Lit l) s = (if ci_prefix l s then [(None, drop (length l) s)] else [])"
| "matches (Rep c lo hi greedy) s = map (\<lambda>n. (None, drop n s)) (counts c lo hi greedy s)"
| "matches (Group r) s =
     map (\<lambda>(g, rest). (Some (take (length s - length rest) s), rest)) (matches r s)"
| "matches (Seq r1 r2) s =
     concat (map (\<lambda>(g1, s1).
        map (\<lambda>(g2, s2). (case g2 of None \<Rightarrow> g1 | Some t \<Rightarrow> Some t, s2)) (matches r2 s1))
        (matches r1 s))"
| "matches (Alt r1 r2) s = matches r1 s @ matches r2 s"
| "matches Eos s = (if s = [] \<or> s = [CHR 0x0A] then [(None, s)] else [])"

text \<open>
  \<open>search r s\<close> is \<open>re.search\<close>: \<open>None\<close> when no start position matches, otherwise
  the match object, represented by what its \<open>group(1)\<close> returns.
\<close>

fun search :: "re \<Rightarrow> string \<Rightarrow> string option option" where
  "search r [] = (case matches r [] of [] \<Rightarrow> None | (g, rest) # ms \<Rightarrow> Some g)"
| "search r (c # s) = (case matches r (c # s) of [] \<Rightarrow> search r s | (g, rest) # ms \<Rightarrow> Some g)"

text \<open>
  \<open>captures r\<close>: group 1 takes part in every match of \<open>r\<close>, so that \<open>group(1)\<close> of a
  match is a string.
\<close>

fun captures :: "re \<Rightarrow> bool" where
  "captures (Group r) = True"
| "captures (Seq r1 r2) = (captures r1 \<or> captures r2)"
| "captures (Alt r1 r2) = (captures r1 \<and> captures r2)"
| "captures r = False"

definition rating_re :: re where
  "rating_re = Seq (Lit ''Rating'') (Seq (Star Space) (Seq (Opt (OneOf '':-''))
     (Seq (Star Space) (Group (Rep Digit 1 (Some 2) True)))))"

definition suggestions_re :: re where
  "suggestions_re = Seq (Lit ''Suggestions'') (Seq (Star Space) (Seq (Opt (OneOf '':-''))
     (Seq (Star Space) (Seq (Group (LazyStar Any))
        (Alt (Lit ''Example of rewritten section'') Eos)))))"

definition example_re :: re where
  "example_re = Seq (Lit ''Example of rewritten section'') (Seq (LazyStar Any) (Seq (Lit '':'')
     (Seq (Star Space) (Group (Star Any)))))"

section \<open>Exceptions, configuration and responses\<close>

text \<open>
  An exception is kept as the text that \<open>str(e)\<close> gives; a \<open>RuntimeError\<close> raised by
  this module is told apart from the exceptions of the libraries it calls.
\<close>

datatype exc = RuntimeError string | LibraryError string

fun exc_str :: "exc \<Rightarrow> string" where
  "exc_str (RuntimeError m) = m"
| "exc_str (LibraryError m) = m"

text \<open>The module-level configuration read from the environment at import time.\<close>

record config =
  env_GROQ_MODEL :: "string option"
  env_GROQ_API_KEY :: "string option"

definition GROQ_MODEL :: "config \<Rightarrow> string" where
  "GROQ_MODEL cfg = (case env_GROQ_MODEL cfg of None \<Rightarrow> ''llama-3.3-70b-versatile'' | Some m \<Rightarrow> m)"

text \<open>\<open>client\<close> is \<open>None\<close> unless the key is set and non-empty.\<close>

definition client :: "config \<Rightarrow> bool" where
  "client cfg = (case env_GROQ_API_KEY cfg of None \<Rightarrow> False | Some k \<Rightarrow> k \<noteq> [])"

text \<open>
  A response of a handler: the HTTP status and the JSON object given to \<open>jsonify\<close>,
  as its key/value pairs in the order of the source.
\<close>

record response =
  status :: nat
  body :: "(string \<times> string) list"

section \<open>The completion client\<close>

text \<open>
  The provider is outside the program. \<open>api prompt k\<close> is what the \<open>try\<close> body does at
  the call number \<open>k\<close> (from 0) of \<open>client.responses.create\<close>: it raises, or yields
  \<open>resp.output_text\<close>. \<open>call_groq\<close> returns its result together with the number
  of calls it made.
\<close>

type_synonym api = "string \<Rightarrow> nat \<Rightarrow> exc + string"

fun digit_char :: "nat \<Rightarrow> char" where
  "digit_char n = ''0123456789'' ! n"

fun str_nat :: "nat \<Rightarrow> string" where
  "str_nat n = (if n < 10 then [digit_char n] else str_nat (n div 10) @ [digit_char (n mod 10)])"

declare str_nat.simps [simp del]

definition str_int :: "int \<Rightarrow> string" where
  "str_int i = (if i < 0 then CHR ''-'' # str_nat (nat (- i)) else str_nat (nat i))"

definition failed_after :: "int \<Rightarrow> exc option \<Rightarrow> exc" where
  "failed_after max_retries last_err = RuntimeError
     (''Groq AI request failed after '' @ str_int max_retries @ '' attempts: '' @
      (case last_err of None \<Rightarrow> ''None'' | Some e \<Rightarrow> exc_str e))"

function attempts :: "api \<Rightarrow> string \<Rightarrow> int \<Rightarrow> int \<Rightarrow> exc option \<Rightarrow> nat \<Rightarrow> (exc + string) \<times> nat" where
  "attempts api prompt max_retries attempt last_err calls =
     (if attempt > max_retries then (Inl (failed_after max_retries last_err), calls)
      else case api prompt calls of
             Inr output_text \<Rightarrow> (Inr (strip output_text), Suc calls)
           | Inl e \<Rightarrow>
               if attempt = max_retries then (Inl (failed_after max_retries (Some e)), Suc calls)
               else attempts api prompt max_retries (attempt + 1) (Some e) (Suc calls))"
  by pat_completeness auto
termination
  by (relation "measure (\<lambda>(api, prompt, max_retries, attempt, last_err, calls). nat (max_retries + 1 - attempt))") auto

declare attempts.simps [simp del]

definition call_groq :: "config \<Rightarrow> api \<Rightarrow> string \<Rightarrow> int \<Rightarrow> (exc + string) \<times> nat" where
  "call_groq cfg api prompt max_retries =
     (if \<not> client cfg then (Inl (RuntimeError ''GROQ_API_KEY is not configured on the server.''), 0)
      else attempts api prompt max_retries 1 None 0)"

text \<open>The default of the parameter \<open>max_retries\<close>.\<close>

definition default_max_retries :: int where
  "default_max_retries = 3"

section \<open>The text extractor\<close>

text \<open>
  \<open>os.path.splitext\<close> and \<open>os.path.join\<close> as \<open>posixpath\<close> defines them:
  \<open>rfind\<close> is \<open>-1\<close> when the character is absent, and the extension starts at the last
  dot of the last path component unless only dots precede it there.
\<close>

definition rfind :: "string \<Rightarrow> char \<Rightarrow> int" where
  "rfind p c = (if c \<in> set p then int (length p) - 1 - int (length (takeWhile (\<lambda>x. x \<noteq> c) (rev p))) else - 1)"

function leading_dots_only :: "string \<Rightarrow> nat \<Rightarrow> nat \<Rightarrow> bool" where
  "leading_dots_only p filenameIndex dotIndex =
     (if filenameIndex < dotIndex then
        (if p ! filenameIndex \<noteq> CHR ''.'' then False
         else leading_dots_only p (Suc filenameIndex) dotIndex)
      else True)"
  by pat_completeness auto
termination
  by (relation "measure (\<lambda>(p, filenameIndex, dotIndex). dotIndex - filenameIndex)") auto

declare leading_dots_only.simps [simp del]

definition splitext :: "string \<Rightarrow> string \<times> string" where
  "splitext p =
     (let sepIndex = rfind p CHR ''/''; dotIndex = rfind p CHR ''.'' in
      if dotIndex > sepIndex \<and> \<not> leading_dots_only p (nat (sepIndex + 1)) (nat dotIndex)
      then (take (nat dotIndex) p, drop (nat dotIndex) p)
      else (p, []))"

definition path_join :: "string \<Rightarrow> string \<Rightarrow> string" where
  "path_join a b =
     (if b \<noteq> [] \<and> hd b = CHR ''/'' then b
      else if a = [] \<or> last a = CHR ''/'' then a @ b
      else a @ ''/'' @ b)"

text \<open>
  The two document libraries are outside the program: \<open>pdf_text\<close> is pdfminer's
  \<open>extract_text\<close>, \<open>docx_paragraphs\<close> the paragraph texts of \<open>Document(path)\<close>; either
  may raise.
\<close>

record libs =
  pdf_text :: "string \<Rightarrow> exc + string"
  docx_paragraphs :: "string \<Rightarrow> exc + string list"

fun join_lines :: "string list \<Rightarrow> string" where
  "join_lines [] = []"
| "join_lines [x] = x"
| "join_lines (x # y # ys) = x @ [CHR 0x0A] @ join_lines (y # ys)"

definition extract_resume_text :: "libs \<Rightarrow> string \<Rightarrow> exc + string" where
  "extract_resume_text lb file_path =
     (let ext = lower (snd (splitext file_path)) in
      if ext = ''.pdf'' then pdf_text lb file_path
      else if ext = ''.docx'' then
        (case docx_paragraphs lb file_path of Inl e \<Rightarrow> Inl e | Inr ps \<Rightarrow> Inr (join_lines ps))
      else Inr [])"

section \<open>The upload endpoint\<close>

text \<open>
  What a request does to the world is recorded as a list of events in the order in which
  they happen: the write of the temporary file, the call of the extractor, the removal of
  the temporary file, each call of the completion service. \<open>save\<close> (\<open>file.save\<close>) and
  \<open>remove\<close> (\<open>os.remove\<close>) return the exception they raise, if any.
\<close>

datatype event = Save string | Extract string | Remove string | Completion string

record world =
  save :: "string \<Rightarrow> exc option"
  remove :: "string \<Rightarrow> exc option"
  documents :: libs
  completion :: api

definition upload_prompt :: "string \<Rightarrow> string" where
  "upload_prompt resume_text =
     ''You are an expert resume reviewer and career advisor. '' @
     ''Carefully analyze the following resume and provide highly actionable, specific, and detailed suggestions for improvement. '' @
     ''For each suggestion, include a concrete example or rewrite (e.g., '' @ [CHR 0x27] @ ''Instead of X, do Y'' @ [CHR 0x27] @ '' or '' @ [CHR 0x27] @ ''For example: ...'' @ [CHR 0x27] @ ''). '' @
     ''After the suggestions, provide an example of a rewritten section (such as the summary or a project description) that would be considered a 10 out of 10, based on your feedback. '' @
     ''Be strict about the format and do not skip any section. '' @
     ''Consider clarity, structure, skills, achievements, relevance to modern job markets, and overall professionalism. '' @
     ''Also, give an overall rating for the resume on a scale of 1 to 10, where 10 is outstanding and 1 is very poor. '' @
     ''Respond in the following format (do not include anything else):'' @ [CHR 0x0A] @
     ''Rating: <number>'' @ [CHR 0x0A] @ ''Suggestions:'' @ [CHR 0x0A] @
     ''<bullet points or text, each with an improved example or rewrite>'' @ [CHR 0x0A] @
     ''Example of rewritten section (10/10):'' @ [CHR 0x0A] @ ''<your rewritten section>'' @ [CHR 0x0A] @
     [CHR 0x0A] @ ''Resume:'' @ [CHR 0x0A] @ resume_text"

text \<open>
  Lines 70 to 97 of the handler: everything up to the reply of the completion client.
  The result is \<open>Inl\<close> with the response when the handler returns before it has a reply
  (no file, an exception caught by the \<open>except\<close> clause, no text extracted), and
  \<open>Inr\<close> with \<open>ai_reply\<close> otherwise. \<open>files\<close> is \<open>request.files\<close>, from the field
  name to the file name of the upload.
\<close>

definition error_response :: "exc \<Rightarrow> response" where
  "error_response e = \<lparr>status = 500, body = [(''error'', exc_str e)]\<rparr>"

definition upload_ai_reply ::
  "config \<Rightarrow> world \<Rightarrow> (string \<rightharpoonup> string) \<Rightarrow> (response + string) \<times> event list" where
  "upload_ai_reply cfg w files =
     (case files ''resume'' of
        None \<Rightarrow> (Inl \<lparr>status = 400, body = [(''error'', ''No file uploaded'')]\<rparr>, [])
      | Some filename \<Rightarrow>
          let temp_path = path_join ''temp'' filename in
          (case save w temp_path of
             Some e \<Rightarrow> (Inl (error_response e), [Save temp_path])
           | None \<Rightarrow>
              (case extract_resume_text (documents w) temp_path of
                 Inl e \<Rightarrow> (Inl (error_response e), [Save temp_path, Extract temp_path])
               | Inr resume_text \<Rightarrow>
                  (case remove w temp_path of
                     Some e \<Rightarrow> (Inl (error_response e),
                                [Save temp_path, Extract temp_path, Remove temp_path])
                   | None \<Rightarrow>
                      if strip resume_text = [] then
                        (Inl \<lparr>status = 400, body = [(''error'', ''Could not extract text from resume.'')]\<rparr>,
                         [Save temp_path, Extract temp_path, Remove temp_path])
                      else
                        let prompt = upload_prompt resume_text;
                            (r, calls) = call_groq cfg (completion w) prompt default_max_retries;
                            evs = [Save temp_path, Extract temp_path, Remove temp_path]
                                  @ replicate calls (Completion prompt)
                        in (case r of
                              Inl e \<Rightarrow> (Inl (error_response e), evs)
                            | Inr ai_reply \<Rightarrow> (Inr ai_reply, evs))))))"

text \<open>
  Lines 98 to 106: the three searches, the three fields and the response. \<open>group(1)\<close>
  of a match whose group took no part is \<open>None\<close> and \<open>.strip()\<close> on it raises, which
  the \<open>except\<close> clause of the handler turns into a response of its own.
\<close>

definition rating_of :: "string \<Rightarrow> string option" where
  "rating_of ai_reply =
     (case search rating_re ai_reply of None \<Rightarrow> None | Some g \<Rightarrow> g)"

definition stripped_group :: "string option option \<Rightarrow> exc + string option" where
  "stripped_group m =
     (case m of
        None \<Rightarrow> Inr None
      | Some None \<Rightarrow> Inl (LibraryError
          ([CHR 0x27] @ ''NoneType'' @ [CHR 0x27] @ '' object has no attribute '' @ [CHR 0x27] @ ''strip'' @ [CHR 0x27]))
      | Some (Some t) \<Rightarrow> Inr (Some (strip t)))"

definition suggestions_of :: "string \<Rightarrow> exc + string option" where
  "suggestions_of ai_reply = stripped_group (search suggestions_re ai_reply)"

definition example_of :: "string \<Rightarrow> exc + string option" where
  "example_of ai_reply = stripped_group (search example_re ai_reply)"

text \<open>Python's truth value of a field: \<open>None\<close> and the empty string are false.\<close>

fun truthy :: "string option \<Rightarrow> bool" where
  "truthy None = False"
| "truthy (Some t) = (t \<noteq> [])"

definition incomplete_response :: "string \<Rightarrow> response" where
  "incomplete_response ai_reply = \<lparr>status = 500, body =
     [(''error'', ''AI could not provide a complete analysis. Please try again.''),
      (''raw_ai_output'', ai_reply)]\<rparr>"

definition parse_and_respond :: "string \<Rightarrow> response" where
  "parse_and_respond ai_reply =
     (let rating = rating_of ai_reply in
      case suggestions_of ai_reply of
        Inl e \<Rightarrow> error_response e
      | Inr suggestions \<Rightarrow>
         (case example_of ai_reply of
            Inl e \<Rightarrow> error_response e
          | Inr example \<Rightarrow>
              if \<not> (truthy rating \<and> truthy suggestions \<and> truthy example)
              then incomplete_response ai_reply
              else \<lparr>status = 200, body =
                     [(''ai_rating'', the rating), (''ai_suggestions'', the suggestions),
                      (''ai_example'', the example), (''raw_ai_output'', ai_reply)]\<rparr>))"

definition upload_resume ::
  "config \<Rightarrow> world \<Rightarrow> (string \<rightharpoonup> string) \<Rightarrow> response \<times> event list" where
  "upload_resume cfg w files =
     (case upload_ai_reply cfg w files of
        (Inl resp, evs) \<Rightarrow> (resp, evs)
      | (Inr ai_reply, evs) \<Rightarrow> (parse_and_respond ai_reply, evs))"

section \<open>The direct-text endpoint\<close>

text \<open>
  \<open>request.get_json()\<close> has decoded the body. The handler only asks a decoded value for
  its truth value and formats it with \<open>str\<close>, so a value that is not a string is kept as
  these two. \<open>data.get\<close> exists on an object (a \<open>dict\<close>) only: on any other body,
  kept as the Python type of the decoded value, it raises \<open>AttributeError\<close> outside the
  \<open>try\<close>, and the exception leaves the handler (\<open>Inl\<close>).
\<close>

datatype jvalue = JString string | JOther bool string

fun jtruthy :: "jvalue \<Rightarrow> bool" where
  "jtruthy (JString t) = (t \<noteq> [])"
| "jtruthy (JOther b t) = b"

fun jstr :: "jvalue \<Rightarrow> string" where
  "jstr (JString t) = t"
| "jstr (JOther b t) = t"

datatype pytype = PyList | PyNoneType | PyStr | PyInt | PyFloat | PyBool

fun type_name :: "pytype \<Rightarrow> string" where
  "type_name PyList = ''list''"
| "type_name PyNoneType = ''NoneType''"
| "type_name PyStr = ''str''"
| "type_name PyInt = ''int''"
| "type_name PyFloat = ''float''"
| "type_name PyBool = ''bool''"

datatype jbody = JObject "string \<rightharpoonup> jvalue" | JNotObject pytype

definition no_attribute :: "pytype \<Rightarrow> string \<Rightarrow> exc" where
  "no_attribute t a = LibraryError
     ([CHR 0x27] @ type_name t @ [CHR 0x27] @ '' object has no attribute '' @ [CHR 0x27] @ a @ [CHR 0x27])"

definition analyze_prompt :: "jvalue \<Rightarrow> string" where
  "analyze_prompt resume_text =
     ''You are an expert resume coach. Provide concise, actionable improvement suggestions (bullet list) and then a polished summary rewrite.'' @ [CHR 0x0A] @
     ''Resume text:'' @ [CHR 0x0A] @ jstr resume_text"

definition analyze_resume ::
  "config \<Rightarrow> api \<Rightarrow> jbody \<Rightarrow> (exc + response) \<times> event list" where
  "analyze_resume cfg api data =
     (case data of
        JNotObject t \<Rightarrow> (Inl (no_attribute t ''get''), [])
      | JObject obj \<Rightarrow>
          let resume_text = (case obj ''resume_text'' of None \<Rightarrow> JString [] | Some v \<Rightarrow> v) in
          if \<not> jtruthy resume_text then
            (Inr \<lparr>status = 400, body = [(''error'', ''No resume text provided'')]\<rparr>, [])
          else
            let prompt = analyze_prompt resume_text;
                (r, calls) = call_groq cfg api prompt default_max_retries;
                evs = replicate calls (Completion prompt)
            in (case r of
                  Inl e \<Rightarrow> (Inr (error_response e), evs)
                | Inr ai_reply \<Rightarrow>
                    (Inr \<lparr>status = 200, body = [(''ai_suggestions'', ai_reply), (''model'', GROQ_MODEL cfg)]\<rparr>, evs)))"

section \<open>A sample configuration and world\<close>

text \<open>
  Concrete values at which the theorems below are instantiated: the key is set, the model
  is the default one, every write and removal succeeds, a PDF holds a line of text, and
  the provider answers every call with the reply given as argument.
\<close>

definition sample_config :: config where
  "sample_config = \<lparr>env_GROQ_MODEL = None, env_GROQ_API_KEY = Some ''key''\<rparr>"

definition sample_world :: "string \<Rightarrow> world" where
  "sample_world reply =
     \<lparr>save = (\<lambda>p. None), remove = (\<lambda>p. None),
      documents = \<lparr>pdf_text = (\<lambda>p. Inr ''Ten years of Java''), docx_paragraphs = (\<lambda>p. Inr [])\<rparr>,
      completion = (\<lambda>p k. Inr reply)\<rparr>"

text \<open>A reply without the marker of the rewritten section.\<close>

definition reply_without_example :: string where
  "reply_without_example = ''Rating: 7'' @ [CHR 0x0A] @ ''Suggestions:'' @ [CHR 0x0A] @ ''- add metrics''"

text \<open>The reply in the requested format, its three parts separated by newlines.\<close>

definition well_formed_reply :: string where
  "well_formed_reply = ''Rating: 8'' @ [CHR 0x0A] @ ''Suggestions:'' @ [CHR 0x0A] @ ''- improve X'' @ [CHR 0x0A] @
     ''Example of rewritten section (10/10):'' @ [CHR 0x0A] @ ''Rewritten text''"

section \<open>The example field in words\<close>

text \<open>
  \<open>ci_find l s\<close> is the position of the leftmost occurrence of \<open>l\<close> in \<open>s\<close>, letter
  case ignored. \<open>example_field\<close> describes the example field without the matcher: the
  text after the first colon that follows the leftmost occurrence of the marker, trimmed;
  nothing when the marker is absent or no colon follows it.
\<close>

fun ci_find :: "string \<Rightarrow> string \<Rightarrow> nat option" where
  "ci_find l [] = (if ci_prefix l [] then Some 0 else None)"
| "ci_find l (c # s) = (if ci_prefix l (c # s) then Some 0 else map_option Suc (ci_find l s))"

definition example_field :: "string \<Rightarrow> string option" where
  "example_field reply =
     (case ci_find ''Example of rewritten section'' reply of
        None \<Rightarrow> None
      | Some k \<Rightarrow>
          let rest = drop (k + length ''Example of rewritten section'') reply in
          if CHR '':'' \<in> set rest
          then Some (strip (tl (dropWhile (\<lambda>c. c \<noteq> CHR '':'') rest)))
          else None)"

text \<open>The part of the example pattern from the colon on.\<close>

definition after_colon :: re where
  "after_colon = Seq (Lit '':'') (Seq (Star Space) (Group (Star Any)))"

text \<open>A reply in which no colon follows the marker of the rewritten section.\<close>

definition reply_without_colon :: string where
  "reply_without_colon = ''Rating: 8'' @ [CHR 0x0A] @ ''Suggestions:'' @ [CHR 0x0A] @ ''- improve X'' @ [CHR 0x0A] @
     ''Example of rewritten section'' @ [CHR 0x0A] @ ''Rewritten text''"

text \<open>The part of the suggestions pattern from the captured text on.\<close>

definition suggestions_tail :: re where
  "suggestions_tail = Seq (Group (LazyStar Any)) (Alt (Lit ''Example of rewritten section'') Eos)"

text \<open>
  A reply in which only whitespace lies between the marker \<open>Suggestions\<close> and the marker
  of the rewritten section.
\<close>

definition reply_empty_suggestions :: string where
  "reply_empty_suggestions = ''Rating: 8'' @ [CHR 0x0A] @ ''Suggestions'' @ [CHR 0x0A] @ ''  '' @
     ''Example of rewritten section:'' @ [CHR 0x0A] @ ''Rewritten text''"

text \<open>
  A reply in which the word \<open>Suggestions\<close> occurs twice, the second time directly before
  the marker of the rewritten section.
\<close>

definition reply_two_suggestions :: string where
  "reply_two_suggestions = (''Rating: 8'' @ [CHR 0x0A] @ ''Suggestions: see below'' @ [CHR 0x0A]) @
     (''Suggestions'' @ [CHR 0x0A] @ ''Example of rewritten section'') @ '': Rewritten text''"

text \<open>The part of the rating pattern that captures the digits.\<close>

definition digits12 :: re where
  "digits12 = Group (Rep Digit 1 (Some 2) True)"

text \<open>
  Replies with a rating of 99 or 100: two with text before the rating, one with an earlier
  rating of 5, one whose suggestions are empty.
\<close>

definition reply_tail :: string where
  "reply_tail = [CHR 0x0A] @ ''Suggestions:'' @ [CHR 0x0A] @ ''- improve X'' @ [CHR 0x0A] @
     ''Example of rewritten section:'' @ [CHR 0x0A] @ ''Rewritten text''"

definition reply_rating_99 :: string where
  "reply_rating_99 = ''Overall '' @ ''Rating: 99'' @ reply_tail"

definition reply_rating_100 :: string where
  "reply_rating_100 = ''Overall '' @ ''Rating: 100'' @ reply_tail"

definition reply_two_ratings :: string where
  "reply_two_ratings = (''Rating: 5'' @ [CHR 0x0A]) @ ''Rating: 99'' @ reply_tail"

definition reply_rating_99_empty :: string where
  "reply_rating_99_empty = ''Rating: 99'' @ [CHR 0x0A] @ ''Suggestions:'' @ [CHR 0x0A] @
     ''Example of rewritten section:'' @ [CHR 0x0A] @ ''Rewritten text''"

text \<open>The extension of a path in words: the part after its last dot, if it has a dot.\<close>

definition last_dot_extension :: "string \<Rightarrow> string option" where
  "last_dot_extension p =
     (if CHR ''.'' \<in> set p then Some (rev (takeWhile (\<lambda>x. x \<noteq> CHR ''.'') (rev p))) else None)"

section \<open>The completion client: retries\<close>

text \<open>
  A run of attempts that all raise: from attempt \<open>a\<close> on, the loop makes one call for
  each remaining attempt and fails with the exception of the last one.
\<close>

lemma attempts_all_raise:
  assumes "\<forall>k. calls \<le> k \<and> k < calls + nat (n + 1 - a) \<longrightarrow> api p k = Inl (e k)"
    and "1 \<le> a" and "a \<le> n"
  shows "attempts api p n a last_err calls =
           (Inl (failed_after n (Some (e (calls + nat (n - a))))), calls + nat (n + 1 - a))"
  using assms
proof (induction api p n a last_err calls rule: attempts.induct)
  case (1 api prompt max_retries attempt last_err calls)
  have here: "api prompt calls = Inl (e calls)"
    using "1.prems" by simp
  show ?case
  proof (cases "attempt = max_retries")
    case True
    then show ?thesis
      using here by (subst attempts.simps) simp
  next
    case False
    then have lt: "attempt < max_retries" using "1.prems" by simp
    have ih: "attempts api prompt max_retries (attempt + 1) (Some (e calls)) (Suc calls) =
            (Inl (failed_after max_retries (Some (e (Suc calls + nat (max_retries - (attempt + 1)))))),
             Suc calls + nat (max_retries + 1 - (attempt + 1)))"
    proof (rule "1.IH"[OF _ here False])
      show "\<not> max_retries < attempt" using lt by simp
      show "\<forall>k. Suc calls \<le> k \<and> k < Suc calls + nat (max_retries + 1 - (attempt + 1)) \<longrightarrow> api prompt k = Inl (e k)"
        using "1.prems"(1) lt by (auto simp: nat_diff_distrib)
      show "1 \<le> attempt + 1" using "1.prems" by simp
      show "attempt + 1 \<le> max_retries" using lt by simp
    qed
    have idx: "Suc calls + nat (max_retries - (attempt + 1)) = calls + nat (max_retries - attempt)"
      using lt by (simp add: nat_diff_distrib)
    have cnt: "Suc calls + nat (max_retries + 1 - (attempt + 1)) = calls + nat (max_retries + 1 - attempt)"
      using lt by (simp add: nat_diff_distrib)
    have "attempts api prompt max_retries attempt last_err calls =
            attempts api prompt max_retries (attempt + 1) (Some (e calls)) (Suc calls)"
      using here False lt by (subst attempts.simps) simp
    then show ?thesis
      unfolding ih idx cnt by simp
  qed
qed

text \<open>
  C4: if the client is configured and every attempt raises, \<open>_call_groq\<close> makes exactly
  \<open>max_retries\<close> calls (for a retry ceiling of at least one, 3 by default) and raises a
  \<open>RuntimeError\<close> whose message contains the attempt count and the text of the exception
  of the last attempt.
\<close>

theorem call_groq_all_raise:
  assumes "client cfg" and "1 \<le> max_retries"
    and "\<forall>k. k < nat max_retries \<longrightarrow> api prompt k = Inl (e k)"
  shows "call_groq cfg api prompt max_retries =
           (Inl (RuntimeError (''Groq AI request failed after '' @ str_int max_retries @
                  '' attempts: '' @ exc_str (e (nat max_retries - 1)))), nat max_retries)
         \<and> sublist (str_int max_retries)
              (''Groq AI request failed after '' @ str_int max_retries @
                  '' attempts: '' @ exc_str (e (nat max_retries - 1)))
         \<and> sublist (exc_str (e (nat max_retries - 1)))
              (''Groq AI request failed after '' @ str_int max_retries @
                  '' attempts: '' @ exc_str (e (nat max_retries - 1)))"
proof -
  have "attempts api prompt max_retries 1 None 0 =
          (Inl (failed_after max_retries (Some (e (0 + nat (max_retries - 1))))), 0 + nat (max_retries + 1 - 1))"
    by (rule attempts_all_raise) (use assms in auto)
  moreover have "nat (max_retries - 1) = nat max_retries - 1"
    by (simp add: nat_diff_distrib')
  ultimately have "call_groq cfg api prompt max_retries =
      (Inl (RuntimeError (''Groq AI request failed after '' @ str_int max_retries @
                  '' attempts: '' @ exc_str (e (nat max_retries - 1)))), nat max_retries)"
    using assms(1) by (simp add: call_groq_def failed_after_def)
  moreover have "sublist (str_int max_retries)
              (''Groq AI request failed after '' @ str_int max_retries @
                  '' attempts: '' @ exc_str (e (nat max_retries - 1)))"
    by (metis sublist_appendI)
  moreover have "sublist (exc_str (e (nat max_retries - 1)))
              (''Groq AI request failed after '' @ str_int max_retries @
                  '' attempts: '' @ exc_str (e (nat max_retries - 1)))"
    by (metis append.assoc sublist_appendI append_Nil2)
  ultimately show ?thesis by blast
qed

theorem call_groq_all_raise_witness:
  "call_groq sample_config
      (\<lambda>p k. Inl (LibraryError (''timeout '' @ str_nat k))) ''hello'' default_max_retries =
     (Inl (RuntimeError ''Groq AI request failed after 3 attempts: timeout 2''), 3)
   \<and> sublist ''3'' ''Groq AI request failed after 3 attempts: timeout 2''
   \<and> sublist ''timeout 2'' ''Groq AI request failed after 3 attempts: timeout 2''"
proof -
  have c: "client sample_config"
    by (simp add: client_def sample_config_def)
  have n: "(1::int) \<le> default_max_retries"
    by (simp add: default_max_retries_def)
  have s3: "str_int default_max_retries = ''3''"
    by (simp add: default_max_retries_def str_int_def str_nat.simps)
  have s2: "str_nat 2 = ''2''"
    by (simp add: str_nat.simps)
  have d: "nat default_max_retries = 3"
    by (simp add: default_max_retries_def)
  show ?thesis
    using call_groq_all_raise [where cfg = sample_config
        and max_retries = default_max_retries and prompt = "''hello''"
        and api = "\<lambda>p k. Inl (LibraryError (''timeout '' @ str_nat k))"
        and e = "\<lambda>k. LibraryError (''timeout '' @ str_nat k)", OF c n]
    by (simp add: s3 s2 d)
qed

text \<open>
  C5: with the default ceiling of 3, if the first two calls raise and the third returns,
  \<open>_call_groq\<close> returns the (stripped) text of the third call and has made three calls,
  not four.
\<close>

theorem call_groq_third_succeeds:
  assumes "client cfg"
    and "api prompt 0 = Inl e1" and "api prompt 1 = Inl e2" and "api prompt 2 = Inr output_text"
  shows "call_groq cfg api prompt default_max_retries = (Inr (strip output_text), 3)"
  using assms
  by (simp add: call_groq_def default_max_retries_def attempts.simps [of _ _ 3] numeral_2_eq_2)

theorem call_groq_third_succeeds_witness:
  "call_groq sample_config
      (\<lambda>p k. if k < 2 then Inl (LibraryError ''rate limit'') else Inr '' Rating: 8 '')
      ''hello'' default_max_retries = (Inr ''Rating: 8'', 3)"
proof -
  have c: "client sample_config"
    by (simp add: client_def sample_config_def)
  have s: "strip '' Rating: 8 '' = ''Rating: 8''"
    by (simp add: strip_def is_space_def)
  show ?thesis
    using call_groq_third_succeeds [where cfg = sample_config
        and api = "\<lambda>p k. if k < 2 then Inl (LibraryError ''rate limit'') else Inr '' Rating: 8 ''"
        and prompt = "''hello''" and ?e1.0 = "LibraryError ''rate limit''"
        and ?e2.0 = "LibraryError ''rate limit''" and output_text = "'' Rating: 8 ''", OF c]
    by (simp add: s)
qed

section \<open>The endpoints: input errors\<close>

text \<open>
  C7: a request to \<open>/upload\<close> without a \<open>resume\<close> file gets status 400 and the body
  \<open>{"error": "No file uploaded"}\<close>, and nothing has happened before: no file saved, no
  extraction, no completion call.
\<close>

theorem upload_without_file:
  assumes "files ''resume'' = None"
  shows "upload_resume cfg w files =
           (\<lparr>status = 400, body = [(''error'', ''No file uploaded'')]\<rparr>, [])"
  using assms by (simp add: upload_resume_def upload_ai_reply_def)

theorem upload_without_file_witness:
  "[''cover_letter'' \<mapsto> ''letter.pdf''] ''resume'' = None \<and>
   upload_resume sample_config (sample_world ''Rating: 8'') [''cover_letter'' \<mapsto> ''letter.pdf''] =
     (\<lparr>status = 400, body = [(''error'', ''No file uploaded'')]\<rparr>, [])"
  using upload_without_file [of "[''cover_letter'' \<mapsto> ''letter.pdf'']" sample_config
      "sample_world ''Rating: 8''"]
  by simp

text \<open>
  C8, as the code has it: when the JSON body is an object, \<open>/analyze\<close> answers 400 with
  the error \<open>No resume text provided\<close> and makes no completion call if \<open>resume_text\<close> is
  absent or empty (false in Python's sense); if it is non-empty and the completion client
  returns a reply, the answer is 200 with exactly the two fields \<open>ai_suggestions\<close>, the
  reply as it is, and \<open>model\<close>, the model identifier.
\<close>

theorem analyze_contract:
  "(obj ''resume_text'' = None \<or> (\<exists>v. obj ''resume_text'' = Some v \<and> \<not> jtruthy v) \<longrightarrow>
      analyze_resume cfg api (JObject obj) =
        (Inr \<lparr>status = 400, body = [(''error'', ''No resume text provided'')]\<rparr>, []))
   \<and> (obj ''resume_text'' = Some v \<and> jtruthy v \<and>
        fst (call_groq cfg api (analyze_prompt v) default_max_retries) = Inr ai_reply \<longrightarrow>
      fst (analyze_resume cfg api (JObject obj)) =
        Inr \<lparr>status = 200, body = [(''ai_suggestions'', ai_reply), (''model'', GROQ_MODEL cfg)]\<rparr>)"
  by (auto simp: analyze_resume_def Let_def split: prod.splits)

theorem analyze_contract_witness:
  "analyze_resume sample_config (\<lambda>p k. Inr ''- shorten the summary'') (JObject Map.empty) =
        (Inr \<lparr>status = 400, body = [(''error'', ''No resume text provided'')]\<rparr>, [])
   \<and> analyze_resume sample_config (\<lambda>p k. Inr ''- shorten the summary'')
          (JObject [''resume_text'' \<mapsto> JString []]) =
        (Inr \<lparr>status = 400, body = [(''error'', ''No resume text provided'')]\<rparr>, [])
   \<and> fst (analyze_resume sample_config (\<lambda>p k. Inr ''- shorten the summary'')
          (JObject [''resume_text'' \<mapsto> JString ''Ten years of Java'']))
       = Inr \<lparr>status = 200, body = [(''ai_suggestions'', ''- shorten the summary''),
                                     (''model'', ''llama-3.3-70b-versatile'')]\<rparr>"
proof -
  let ?api = "(\<lambda>p k. Inr ''- shorten the summary'') :: api"
  have s: "strip ''- shorten the summary'' = ''- shorten the summary''"
    by (simp add: strip_def is_space_def)
  have call: "fst (call_groq sample_config ?api (analyze_prompt (JString ''Ten years of Java'')) default_max_retries)
      = Inr ''- shorten the summary''"
    by (simp add: call_groq_def client_def sample_config_def default_max_retries_def attempts.simps s)
  have m: "GROQ_MODEL sample_config = ''llama-3.3-70b-versatile''"
    by (simp add: GROQ_MODEL_def sample_config_def)
  show ?thesis
    using analyze_contract [of Map.empty sample_config ?api]
      analyze_contract [of "[''resume_text'' \<mapsto> JString []]" sample_config ?api]
      analyze_contract [of "[''resume_text'' \<mapsto> JString ''Ten years of Java'']"
         sample_config ?api "JString ''Ten years of Java''" "''- shorten the summary''"]
      call m
    by simp
qed

text \<open>
  A body that is a JSON array has no \<open>resume_text\<close> field either, but \<open>data.get\<close> raises
  on it: the handler returns no response of its own, and no status 400.
\<close>

theorem analyze_non_object_counterexample:
  "analyze_resume sample_config (\<lambda>p k. Inr ''- shorten the summary'') (JNotObject PyList) =
     (Inl (LibraryError ([CHR 0x27] @ ''list'' @ [CHR 0x27] @ '' object has no attribute '' @
            [CHR 0x27] @ ''get'' @ [CHR 0x27])), [])
   \<and> fst (analyze_resume sample_config (\<lambda>p k. Inr ''- shorten the summary'') (JNotObject PyList)) \<noteq>
       Inr \<lparr>status = 400, body = [(''error'', ''No resume text provided'')]\<rparr>"
  by (simp add: analyze_resume_def no_attribute_def)

section \<open>The matcher\<close>

text \<open>
  How \<open>matches\<close> unfolds on a literal or a repetition followed by the rest of a pattern,
  and what \<open>search\<close> returns from the matches at the start positions.
\<close>

lemma merge_none_id: "map (\<lambda>(g2, s2). (case g2 of None \<Rightarrow> None | Some t \<Rightarrow> Some t, s2)) xs = xs"
  by (induction xs) (auto split: option.splits)

lemma matches_Seq_Lit:
  "matches (Seq (Lit l) r) s = (if ci_prefix l s then matches r (drop (length l) s) else [])"
  by (simp add: merge_none_id)

lemma matches_Seq_Rep:
  "matches (Seq (Rep c lo hi g) r) s = concat (map (\<lambda>n. matches r (drop n s)) (counts c lo hi g s))"
  by (simp add: merge_none_id comp_def)

lemma counts_le: "n \<in> set (counts c lo hi g s) \<Longrightarrow> n \<le> length s"
proof -
  have "length (takeWhile (in_cls c) s) \<le> length s"
    by (rule length_takeWhile_le)
  moreover assume "n \<in> set (counts c lo hi g s)"
  ultimately show ?thesis
    by (auto simp: counts_def Let_def split: option.splits if_splits)
qed

lemma matches_Seq_Group_Rep:
  "matches (Seq (Group (Rep c lo hi g)) r) s =
     concat (map (\<lambda>n. map (\<lambda>(g2, s2). (case g2 of None \<Rightarrow> Some (take n s) | Some t \<Rightarrow> Some t, s2))
                          (matches r (drop n s))) (counts c lo hi g s))"
proof -
  have "\<And>n. n \<in> set (counts c lo hi g s) \<Longrightarrow> take (length s - (length s - n)) s = take n s"
    using counts_le by fastforce
  then show ?thesis
    by (simp add: comp_def cong: map_cong)
qed

lemma concat_map_first:
  assumes "\<forall>a\<in>set as. f a = []"
  shows "concat (map f (as @ x # bs)) = f x @ concat (map f bs)"
  using assms by (induction as) auto

lemma concat_map_empty: "concat (map f xs) = [] \<longleftrightarrow> (\<forall>x\<in>set xs. f x = [])"
  by (induction xs) auto

lemma counts_LazyStar_Any: "counts Any 0 None False s = [0 ..< Suc (length s)]"
proof -
  have h: "takeWhile (in_cls Any) s = s" by (induction s) auto
  show ?thesis unfolding counts_def Let_def h by simp
qed

lemma counts_Star_Space: "counts Space 0 None True s = rev [0 ..< Suc (length (takeWhile is_space s))]"
proof -
  have "in_cls Space = is_space" by (rule ext) simp
  then show ?thesis by (simp add: counts_def Let_def)
qed

lemma search_here: "matches r s = (g, rest) # ms \<Longrightarrow> search r s = Some g"
  by (cases s) auto

lemma search_skip:
  "(\<forall>j<length pre. matches r (drop j pre @ s) = []) \<Longrightarrow> search r (pre @ s) = search r s"
proof (induction pre)
  case Nil
  then show ?case by simp
next
  case (Cons c pre)
  have "matches r ((c # pre) @ s) = []"
    using Cons.prems by (metis drop0 length_greater_0_conv list.distinct(1))
  moreover have "\<forall>j<length pre. matches r (drop j pre @ s) = []"
    using Cons.prems by (metis Suc_less_eq drop_Suc_Cons length_Cons)
  ultimately show ?case using Cons.IH by simp
qed

lemma search_None_iff: "search r s = None \<longleftrightarrow> (\<forall>k\<le>length s. matches r (drop k s) = [])"
proof (induction s)
  case Nil
  then show ?case by (auto split: list.splits)
next
  case (Cons c s)
  show ?case
  proof
    assume a: "search r (c # s) = None"
    then have m: "matches r (c # s) = []" and "search r s = None"
      by (auto split: list.splits)
    then have t: "\<forall>k\<le>length s. matches r (drop k s) = []" using Cons.IH by simp
    show "\<forall>k\<le>length (c # s). matches r (drop k (c # s)) = []"
    proof (intro allI impI)
      fix k assume "k \<le> length (c # s)"
      then show "matches r (drop k (c # s)) = []"
        using m t by (cases k) auto
    qed
  next
    assume a: "\<forall>k\<le>length (c # s). matches r (drop k (c # s)) = []"
    then have m: "matches r (c # s) = []" by (metis drop0 le0)
    have "\<forall>k\<le>length s. matches r (drop k s) = []"
    proof (intro allI impI)
      fix k assume "k \<le> length s"
      then have "matches r (drop (Suc k) (c # s)) = []" using a by (metis Suc_le_mono length_Cons)
      then show "matches r (drop k s) = []" by simp
    qed
    then have "search r s = None" using Cons.IH by simp
    then show "search r (c # s) = None" using m by simp
  qed
qed

lemma captures_matches: "captures r \<Longrightarrow> (g, rest) \<in> set (matches r s) \<Longrightarrow> g \<noteq> None"
proof (induction r arbitrary: g rest s)
  case (Seq r1 r2)
  then show ?case by (fastforce split: option.splits)
qed auto

lemma captures_search: "captures r \<Longrightarrow> search r s \<noteq> Some None"
proof (induction s)
  case Nil
  then show ?case
    using captures_matches [of r _ _ "[]"] by (auto split: list.splits) (metis list.set_intros(1))
next
  case (Cons c s)
  then show ?case
    using captures_matches [of r _ _ "c # s"] by (auto split: list.splits) (metis list.set_intros(1))
qed

lemma stripped_group_captures:
  "captures r \<Longrightarrow> stripped_group (search r s) =
     Inr (case search r s of None \<Rightarrow> None | Some g \<Rightarrow> map_option strip g)"
  using captures_search [of r s]
  by (auto simp: stripped_group_def split: option.splits)

lemma suggestions_of_Inr:
  "suggestions_of s = Inr (case search suggestions_re s of None \<Rightarrow> None | Some g \<Rightarrow> map_option strip g)"
  unfolding suggestions_of_def
  by (rule stripped_group_captures) (simp add: suggestions_re_def)

lemma example_of_Inr:
  "example_of s = Inr (case search example_re s of None \<Rightarrow> None | Some g \<Rightarrow> map_option strip g)"
  unfolding example_of_def
  by (rule stripped_group_captures) (simp add: example_re_def)

lemma of_char_lower_char:
  "(of_char (lower_char c) :: nat) =
     (let n = of_char c in if (65 \<le> n \<and> n \<le> 90) \<or> (192 \<le> n \<and> n \<le> 222 \<and> n \<noteq> 215) then n + 32 else n)"
  by (auto simp: lower_char_def Let_def)

lemma of_char_nat_inj: "(of_char c :: nat) = of_char d \<Longrightarrow> c = d"
  by (simp only: of_char_eq_iff)

lemma lower_char_colon: "lower_char c = CHR '':'' \<longleftrightarrow> c = CHR '':''"
proof
  assume "lower_char c = CHR '':''"
  then have "(of_char (lower_char c) :: nat) = 58" by simp
  then have "(of_char c :: nat) = 58"
    by (simp add: of_char_lower_char Let_def split: if_splits)
  then have "(of_char c :: nat) = of_char CHR '':''" by simp
  then show "c = CHR '':''" by (rule of_char_nat_inj)
next
  assume "c = CHR '':''"
  then show "lower_char c = CHR '':''" by (simp add: lower_char_def)
qed

lemma is_space_lower_char: "is_space c \<Longrightarrow> lower_char c = c"
  by (auto simp: is_space_def lower_char_def Let_def)

lemma ci_prefix_colon: "ci_prefix '':'' s \<longleftrightarrow> (\<exists>t. s = CHR '':'' # t)"
proof (cases s)
  case Nil
  then show ?thesis by simp
next
  case (Cons a t)
  have h: "lower_char CHR '':'' = CHR '':''" by (simp add: lower_char_def)
  show ?thesis unfolding Cons ci_prefix.simps h lower_char_colon by simp
qed

section \<open>The upload endpoint: incomplete replies\<close>

text \<open>The sample world takes an upload \<open>cv.pdf\<close> as far as the reply of the provider.\<close>

lemma sample_upload_reply:
  "strip reply = reply \<Longrightarrow>
   fst (upload_ai_reply sample_config (sample_world reply) [''resume'' \<mapsto> ''cv.pdf'']) = Inr reply"
  by (simp add: upload_ai_reply_def sample_config_def sample_world_def path_join_def
     extract_resume_text_def Let_def call_groq_def client_def default_max_retries_def
     attempts.simps splitext_def rfind_def leading_dots_only.simps lower_def lower_char_def
     strip_def is_space_def split: prod.splits)

text \<open>
  C1: when the handler has obtained a reply and one of the three searches finds no match,
  the response is the incomplete-analysis error: status 500, with the error message and
  the raw reply under \<open>raw_ai_output\<close>, and no field of a success response.
\<close>

theorem upload_missing_field:
  assumes "fst (upload_ai_reply cfg w files) = Inr ai_reply"
    and "search rating_re ai_reply = None \<or> search suggestions_re ai_reply = None
         \<or> search example_re ai_reply = None"
  shows "fst (upload_resume cfg w files) =
           \<lparr>status = 500, body =
              [(''error'', ''AI could not provide a complete analysis. Please try again.''),
               (''raw_ai_output'', ai_reply)]\<rparr>"
proof -
  have "parse_and_respond ai_reply = incomplete_response ai_reply"
    using assms(2)
    by (auto simp: parse_and_respond_def suggestions_of_Inr example_of_Inr rating_of_def)
  then show ?thesis
    using assms(1)
    by (auto simp: upload_resume_def incomplete_response_def split: prod.splits sum.splits)
qed

theorem upload_missing_field_witness:
  "fst (upload_resume sample_config (sample_world reply_without_example) [''resume'' \<mapsto> ''cv.pdf'']) =
     \<lparr>status = 500, body =
        [(''error'', ''AI could not provide a complete analysis. Please try again.''),
         (''raw_ai_output'', reply_without_example)]\<rparr>"
proof -
  have s: "strip reply_without_example = reply_without_example"
    by (simp add: reply_without_example_def strip_def is_space_def)
  have n: "search example_re reply_without_example = None"
    by (simp add: reply_without_example_def example_re_def lower_char_def)
  show ?thesis
    using upload_missing_field [OF sample_upload_reply [OF s]] n by simp
qed

section \<open>The reply parser on given replies\<close>

text \<open>The definitions that the simplifier unfolds to run the matcher on a given text.\<close>

lemmas re_eval = Star_def Opt_def LazyStar_def counts_def lower_char_def is_space_def is_digit_def

lemma wf_rating: "search rating_re well_formed_reply = Some (Some ''8'')"
  by (simp add: well_formed_reply_def rating_re_def re_eval)

lemma wf_suggestions: "search suggestions_re well_formed_reply = Some (Some (''- improve X'' @ [CHR 0x0A]))"
  by (simp add: well_formed_reply_def suggestions_re_def re_eval)

lemma wf_example: "search example_re well_formed_reply = Some (Some ''Rewritten text'')"
  by (simp add: well_formed_reply_def example_re_def re_eval)

text \<open>
  C2: on the reply \<open>Rating: 8\<close>, \<open>Suggestions:\<close>, \<open>- improve X\<close>,
  \<open>Example of rewritten section (10/10):\<close>, \<open>Rewritten text\<close> (one per line) the parser
  yields the rating \<open>8\<close>, the suggestions \<open>- improve X\<close> and the example
  \<open>Rewritten text\<close>.
\<close>

theorem parser_on_well_formed_reply:
  "rating_of well_formed_reply = Some ''8''
   \<and> suggestions_of well_formed_reply = Inr (Some ''- improve X'')
   \<and> example_of well_formed_reply = Inr (Some ''Rewritten text'')"
  by (simp add: rating_of_def suggestions_of_def example_of_def stripped_group_def
      wf_rating wf_suggestions wf_example strip_def is_space_def)

section \<open>The example field\<close>

text \<open>
  A pattern that starts with a literal is matched at the leftmost occurrence of the
  literal at which the rest of the pattern matches; a lazy repetition of any character
  stops at the first position from which the rest matches, a greedy one at the last.
\<close>

lemma ci_find_None: "ci_find l s = None \<Longrightarrow> k \<le> length s \<Longrightarrow> \<not> ci_prefix l (drop k s)"
proof (induction s arbitrary: k)
  case Nil
  then show ?case by (simp split: if_splits)
next
  case (Cons c s)
  then show ?case by (cases k) (auto split: if_splits)
qed

lemma ci_find_Some:
  "ci_find l s = Some k \<Longrightarrow> k \<le> length s \<and> ci_prefix l (drop k s) \<and> (\<forall>j<k. \<not> ci_prefix l (drop j s))"
proof (induction s arbitrary: k)
  case Nil
  then show ?case by (simp split: if_splits)
next
  case (Cons c s)
  show ?case
  proof (cases "ci_prefix l (c # s)")
    case True
    then show ?thesis using Cons.prems by simp
  next
    case False
    then obtain k' where k': "ci_find l s = Some k'" "k = Suc k'"
      using Cons.prems by auto
    have ih: "k' \<le> length s \<and> ci_prefix l (drop k' s) \<and> (\<forall>j<k'. \<not> ci_prefix l (drop j s))"
      using Cons.IH k'(1) by simp
    have "\<forall>j<k. \<not> ci_prefix l (drop j (c # s))"
    proof (intro allI impI)
      fix j assume "j < k"
      then show "\<not> ci_prefix l (drop j (c # s))"
        using False ih k'(2) by (cases j) auto
    qed
    then show ?thesis using ih k'(2) by simp
  qed
qed

lemma search_skip_drop:
  assumes "k \<le> length s" and "\<forall>j<k. matches r (drop j s) = []"
  shows "search r s = search r (drop k s)"
proof -
  have "search r (take k s @ drop k s) = search r (drop k s)"
  proof (rule search_skip)
    show "\<forall>j<length (take k s). matches r (drop j (take k s) @ drop k s) = []"
    proof (intro allI impI)
      fix j assume "j < length (take k s)"
      then have j: "j < k" by simp
      then have "drop j (take k s) @ drop k s = drop j s"
        by (metis append_take_drop_id drop_append length_take less_imp_le_nat min.absorb2 assms(1) diff_is_0_eq drop0)
      then show "matches r (drop j (take k s) @ drop k s) = []"
        using assms(2) j by simp
    qed
  qed
  then show ?thesis by simp
qed

lemma search_at_first:
  assumes "ci_find l s = Some k" and "matches r (drop (k + length l) s) = (g, rest) # ms"
  shows "search (Seq (Lit l) r) s = Some g"
proof -
  note f = ci_find_Some [OF assms(1)]
  have "\<forall>j<k. matches (Seq (Lit l) r) (drop j s) = []"
    using f by (simp add: matches_Seq_Lit)
  then have "search (Seq (Lit l) r) s = search (Seq (Lit l) r) (drop k s)"
    using f search_skip_drop by blast
  moreover have "matches (Seq (Lit l) r) (drop k s) = (g, rest) # ms"
    unfolding matches_Seq_Lit using f assms(2) by (simp add: add.commute)
  ultimately show ?thesis using search_here by metis
qed

lemma search_no_occurrence:
  assumes "ci_find l s = None"
  shows "search (Seq (Lit l) r) s = None"
  unfolding search_None_iff
  using ci_find_None [OF assms] by (simp add: matches_Seq_Lit)

lemma matches_Seq_LazyStar_Any:
  "matches (Seq (LazyStar Any) r) s = concat (map (\<lambda>n. matches r (drop n s)) [0 ..< Suc (length s)])"
  unfolding LazyStar_def matches_Seq_Rep counts_LazyStar_Any ..

lemma lazy_any_none:
  assumes "\<forall>n\<le>length s. matches r (drop n s) = []"
  shows "matches (Seq (LazyStar Any) r) s = []"
proof -
  have "\<forall>x\<in>set [0 ..< Suc (length s)]. matches r (drop x s) = []"
    using assms by (simp add: less_Suc_eq_le del: upt_Suc)
  then show ?thesis
    unfolding matches_Seq_LazyStar_Any concat_map_empty .
qed

lemma lazy_any_first:
  assumes "n \<le> length s" and "\<forall>j<n. matches r (drop j s) = []"
  shows "matches (Seq (LazyStar Any) r) s =
           matches r (drop n s) @ concat (map (\<lambda>n. matches r (drop n s)) [Suc n ..< Suc (length s)])"
proof -
  have "[0 ..< Suc (length s)] = [0 ..< n] @ n # [Suc n ..< Suc (length s)]"
  proof -
    obtain d where d: "length s = n + d"
      using assms(1) le_Suc_ex by blast
    have "[0 ..< n + Suc d] = [0 ..< n] @ [n ..< n + Suc d]"
      by (rule upt_add_eq_append) simp
    moreover have "[n ..< n + Suc d] = n # [Suc n ..< n + Suc d]"
      by (rule upt_conv_Cons) simp
    ultimately show ?thesis using d by simp
  qed
  moreover have "\<forall>a\<in>set [0 ..< n]. matches r (drop a s) = []"
    using assms(2) by simp
  ultimately show ?thesis
    unfolding matches_Seq_LazyStar_Any by (simp only: concat_map_first)
qed

lemma matches_Seq_Star_first:
  "matches (Seq (Star c) r) s =
     matches r (drop (length (takeWhile (in_cls c) s)) s) @
     concat (map (\<lambda>n. matches r (drop n s)) (rev [0 ..< length (takeWhile (in_cls c) s)]))"
  unfolding Star_def matches_Seq_Rep by (simp add: counts_def Let_def)

lemma matches_Group_Star_Any: "\<exists>ms. matches (Group (Star Any)) s = (Some s, []) # ms"
proof -
  have h: "takeWhile (in_cls Any) s = s" by (induction s) auto
  show ?thesis unfolding Star_def by (simp add: counts_def Let_def h)
qed

lemma after_colon_no: "\<not> (\<exists>t. u = CHR '':'' # t) \<Longrightarrow> matches after_colon u = []"
  unfolding after_colon_def matches_Seq_Lit by (simp only: ci_prefix_colon if_False)

lemma after_colon_yes:
  "\<exists>ms. matches after_colon (CHR '':'' # t) = (Some (dropWhile is_space t), []) # ms"
proof -
  have sp: "in_cls Space = is_space" by (rule ext) simp
  have p: "ci_prefix '':'' (CHR '':'' # t)" by (simp add: ci_prefix_colon)
  obtain ms where ms: "matches (Group (Star Any)) (dropWhile is_space t) = (Some (dropWhile is_space t), []) # ms"
    using matches_Group_Star_Any by blast
  have "matches after_colon (CHR '':'' # t) = matches (Seq (Star Space) (Group (Star Any))) t"
    unfolding after_colon_def matches_Seq_Lit using p by simp
  also have "\<dots> = matches (Group (Star Any)) (dropWhile is_space t) @
      concat (map (\<lambda>n. matches (Group (Star Any)) (drop n t)) (rev [0 ..< length (takeWhile is_space t)]))"
    unfolding matches_Seq_Star_first sp by (simp only: dropWhile_eq_drop)
  finally show ?thesis using ms by simp
qed

lemma example_tail_none:
  assumes "CHR '':'' \<notin> set t"
  shows "matches (Seq (LazyStar Any) after_colon) t = []"
proof (rule lazy_any_none, intro allI impI)
  fix n assume "n \<le> length t"
  have "\<not> (\<exists>u. drop n t = CHR '':'' # u)"
    using assms by (metis in_set_dropD list.set_intros(1))
  then show "matches after_colon (drop n t) = []" by (rule after_colon_no)
qed

lemma example_tail_some:
  assumes "CHR '':'' \<in> set t"
  shows "\<exists>ms. matches (Seq (LazyStar Any) after_colon) t =
           (Some (dropWhile is_space (tl (dropWhile (\<lambda>c. c \<noteq> CHR '':'') t))), []) # ms"
proof -
  let ?n = "length (takeWhile (\<lambda>c. c \<noteq> CHR '':'') t)"
  let ?d = "dropWhile (\<lambda>c. c \<noteq> CHR '':'') t"
  have d: "drop ?n t = ?d" by (simp only: dropWhile_eq_drop)
  have ne: "?d \<noteq> []" using assms by simp
  have "hd ?d = CHR '':''" using ne hd_dropWhile by (metis (mono_tags, lifting))
  then have dc: "?d = CHR '':'' # tl ?d" using ne by (metis list.collapse)
  have le: "?n \<le> length t" by (rule length_takeWhile_le)
  have before: "\<forall>j<?n. matches after_colon (drop j t) = []"
  proof (intro allI impI)
    fix j assume j: "j < ?n"
    then have jt: "j < length t" using le by simp
    have "t ! j \<noteq> CHR '':''"
      using j by (metis (mono_tags, lifting) nth_mem set_takeWhileD takeWhile_nth)
    moreover have "drop j t = t ! j # drop (Suc j) t"
      using jt by (simp add: Cons_nth_drop_Suc)
    ultimately have "\<not> (\<exists>u. drop j t = CHR '':'' # u)" by simp
    then show "matches after_colon (drop j t) = []" by (rule after_colon_no)
  qed
  obtain ms where ms: "matches after_colon (CHR '':'' # tl ?d) = (Some (dropWhile is_space (tl ?d)), []) # ms"
    using after_colon_yes by blast
  have "matches (Seq (LazyStar Any) after_colon) t =
          matches after_colon (drop ?n t) @
          concat (map (\<lambda>n. matches after_colon (drop n t)) [Suc ?n ..< Suc (length t)])"
    using le before by (rule lazy_any_first)
  then show ?thesis using ms d dc by (metis append_Cons)
qed

lemma example_re_after_colon:
  "example_re = Seq (Lit ''Example of rewritten section'') (Seq (LazyStar Any) after_colon)"
  by (simp add: example_re_def after_colon_def)

lemma strip_dropWhile: "strip (dropWhile is_space s) = strip s"
  by (simp add: strip_def)

lemma example_search_no_colon:
  assumes "ci_find ''Example of rewritten section'' reply = Some k"
    and "CHR '':'' \<notin> set (drop (k + length ''Example of rewritten section'') reply)"
  shows "search example_re reply = None"
  unfolding search_None_iff
proof (intro allI impI)
  fix j assume "j \<le> length reply"
  note f = ci_find_Some [OF assms(1)]
  show "matches example_re (drop j reply) = []"
  proof (cases "ci_prefix ''Example of rewritten section'' (drop j reply)")
    case False
    then show ?thesis unfolding example_re_after_colon matches_Seq_Lit by simp
  next
    case True
    then have "k \<le> j" using f by (meson not_le_imp_less)
    then have "drop (length ''Example of rewritten section'') (drop j reply) =
        drop (j - k) (drop (k + length ''Example of rewritten section'') reply)"
      by (simp add: add.commute)
    then have "CHR '':'' \<notin> set (drop (length ''Example of rewritten section'') (drop j reply))"
      using assms(2) by (metis in_set_dropD)
    then have "matches (Seq (LazyStar Any) after_colon)
        (drop (length ''Example of rewritten section'') (drop j reply)) = []"
      by (rule example_tail_none)
    then show ?thesis unfolding example_re_after_colon matches_Seq_Lit by simp
  qed
qed

lemma example_search_colon:
  assumes "ci_find ''Example of rewritten section'' reply = Some k"
    and "CHR '':'' \<in> set (drop (k + length ''Example of rewritten section'') reply)"
  shows "search example_re reply = Some (Some (dropWhile is_space
           (tl (dropWhile (\<lambda>c. c \<noteq> CHR '':'') (drop (k + length ''Example of rewritten section'') reply)))))"
proof -
  obtain ms where "matches (Seq (LazyStar Any) after_colon) (drop (k + length ''Example of rewritten section'') reply) =
      (Some (dropWhile is_space (tl (dropWhile (\<lambda>c. c \<noteq> CHR '':'')
          (drop (k + length ''Example of rewritten section'') reply)))), []) # ms"
    using example_tail_some [OF assms(2)] by blast
  then show ?thesis
    unfolding example_re_after_colon by (rule search_at_first [OF assms(1)])
qed

lemma eq_char_of_iff: "c = char_of n \<longleftrightarrow> take_bit 8 n = of_char c"
  using char_of_eq_iff [of n c] by auto

lemmas char_eval = char_of_eq_iff eq_char_of_iff

text \<open>
  C3, as the code has it: the example field is the trimmed text after the first colon that
  follows the leftmost occurrence of the marker \<open>Example of rewritten section\<close> (letter
  case ignored). The colon is required: without the marker, or without a colon after it,
  the field is \<open>None\<close>.
\<close>

theorem example_needs_colon: "example_of reply = Inr (example_field reply)"
proof (cases "ci_find ''Example of rewritten section'' reply")
  case None
  then have "search example_re reply = None"
    unfolding example_re_after_colon by (rule search_no_occurrence)
  then show ?thesis using None by (simp add: example_of_Inr example_field_def)
next
  case (Some k)
  show ?thesis
  proof (cases "CHR '':'' \<in> set (drop (k + length ''Example of rewritten section'') reply)")
    case True
    show ?thesis
      unfolding example_of_Inr example_field_def Some example_search_colon [OF Some True]
      using True by (simp add: strip_dropWhile Let_def)
  next
    case False
    show ?thesis
      unfolding example_of_Inr example_field_def Some example_search_no_colon [OF Some False]
      using False by (simp add: Let_def)
  qed
qed

theorem example_needs_colon_witness:
  "example_field well_formed_reply = Some ''Rewritten text''
   \<and> example_of well_formed_reply = Inr (Some ''Rewritten text'')"
  using example_needs_colon [of well_formed_reply]
  by (simp add: example_field_def well_formed_reply_def lower_char_def char_eval strip_def is_space_def)

text \<open>
  The reply \<open>reply_without_colon\<close> contains the marker, at position 35, and no colon
  after it: its example field is \<open>None\<close>.
\<close>

theorem example_without_colon_counterexample:
  "ci_find ''Example of rewritten section'' reply_without_colon = Some 35
   \<and> example_of reply_without_colon = Inr None"
  by (simp add: reply_without_colon_def example_of_def stripped_group_def example_re_def re_eval char_eval)

section \<open>The suggestions field\<close>

text \<open>
  After the literal \<open>Suggestions\<close> the greedy parts of the pattern take the whitespace;
  when the marker of the rewritten section follows at once, the lazy group stops before
  it with nothing captured.
\<close>

lemma suggestions_re_tail:
  "suggestions_re = Seq (Lit ''Suggestions'') (Seq (Star Space) (Seq (Opt (OneOf '':-''))
     (Seq (Star Space) suggestions_tail)))"
  by (simp add: suggestions_re_def suggestions_tail_def)

lemma starts_with_E:
  assumes "ci_prefix ''Example of rewritten section'' t"
  shows "\<exists>x t'. t = x # t' \<and> \<not> is_space x \<and> x \<noteq> CHR '':'' \<and> x \<noteq> CHR ''-''"
proof (cases t)
  case Nil
  then show ?thesis using assms by simp
next
  case (Cons x t')
  then have "lower_char x = lower_char CHR ''E''" using assms by simp
  then have "(of_char (lower_char x) :: nat) = of_char (lower_char CHR ''E'')" by simp
  then have "(of_char x :: nat) = 69 \<or> (of_char x :: nat) = 101"
    by (simp add: of_char_lower_char Let_def split: if_splits)
  then have "\<not> is_space x \<and> x \<noteq> CHR '':'' \<and> x \<noteq> CHR ''-''"
    by (auto simp: is_space_def)
  then show ?thesis using Cons by simp
qed

lemma suggestions_tail_empty:
  assumes "ci_prefix ''Example of rewritten section'' t"
  shows "\<exists>rest ms. matches suggestions_tail t = (Some [], rest) # ms"
proof -
  define F where "F = (\<lambda>n. map (\<lambda>(g2, s2). (case g2 of None \<Rightarrow> Some (take n t) | Some x \<Rightarrow> Some x, s2))
                            (matches (Alt (Lit ''Example of rewritten section'') Eos) (drop n t)))"
  have u: "[0 ..< Suc (length t)] = 0 # [Suc 0 ..< Suc (length t)]"
    by (rule upt_conv_Cons) simp
  have m: "matches suggestions_tail t = concat (map F [0 ..< Suc (length t)])"
    unfolding suggestions_tail_def LazyStar_def matches_Seq_Group_Rep counts_LazyStar_Any F_def ..
  have "\<exists>rest ms. F 0 = (Some [], rest) # ms"
    unfolding F_def using assms by simp
  then obtain rest ms where f0: "F 0 = (Some [], rest) # ms" by blast
  have "matches suggestions_tail t = F 0 @ concat (map F [Suc 0 ..< Suc (length t)])"
    unfolding m u by simp
  then show ?thesis using f0 by simp
qed

lemma suggestions_after_marker:
  assumes "\<forall>c\<in>set ws. is_space c" and "ci_prefix ''Example of rewritten section'' t"
  shows "\<exists>rest ms. matches (Seq (Star Space) (Seq (Opt (OneOf '':-'')) (Seq (Star Space) suggestions_tail)))
            (ws @ t) = (Some [], rest) # ms"
proof -
  obtain x t' where t: "t = x # t'" "\<not> is_space x" "x \<noteq> CHR '':''" "x \<noteq> CHR ''-''"
    using starts_with_E [OF assms(2)] by blast
  have sp: "in_cls Space = is_space" by (rule ext) simp
  have tw: "takeWhile is_space (ws @ t) = ws"
    using assms(1) t by (simp add: takeWhile_append2)
  have tw2: "takeWhile is_space t = []" using t by simp
  obtain rest ms where tail: "matches suggestions_tail t = (Some [], rest) # ms"
    using suggestions_tail_empty [OF assms(2)] by blast
  have s3: "matches (Seq (Star Space) suggestions_tail) t = matches suggestions_tail t"
    unfolding matches_Seq_Star_first sp tw2 by simp
  have c: "counts (OneOf '':-'') 0 (Some 1) True t = [0]"
    using t by (simp add: counts_def)
  have s2: "matches (Seq (Opt (OneOf '':-'')) (Seq (Star Space) suggestions_tail)) t =
              matches suggestions_tail t"
    unfolding Opt_def matches_Seq_Rep c using s3 by simp
  have "matches (Seq (Star Space) (Seq (Opt (OneOf '':-'')) (Seq (Star Space) suggestions_tail))) (ws @ t) =
          matches suggestions_tail t @
          concat (map (\<lambda>n. matches (Seq (Opt (OneOf '':-'')) (Seq (Star Space) suggestions_tail)) (drop n (ws @ t)))
                   (rev [0 ..< length ws]))"
    unfolding matches_Seq_Star_first sp tw using s2 by simp
  then show ?thesis using tail by simp
qed

lemma suggestions_search_empty:
  assumes "ci_find ''Suggestions'' reply = Some k"
    and "drop (k + length ''Suggestions'') reply = ws @ t"
    and "\<forall>c\<in>set ws. is_space c"
    and "ci_prefix ''Example of rewritten section'' t"
  shows "search suggestions_re reply = Some (Some [])"
proof -
  obtain rest ms where "matches (Seq (Star Space) (Seq (Opt (OneOf '':-'')) (Seq (Star Space) suggestions_tail)))
            (drop (k + length ''Suggestions'') reply) = (Some [], rest) # ms"
    using suggestions_after_marker [OF assms(3,4)] assms(2) by metis
  then show ?thesis
    unfolding suggestions_re_tail by (rule search_at_first [OF assms(1)])
qed

lemma empty_field_incomplete:
  assumes "suggestions_of ai_reply = Inr (Some []) \<or> example_of ai_reply = Inr (Some [])"
  shows "parse_and_respond ai_reply = incomplete_response ai_reply"
  using assms
  by (auto simp: parse_and_respond_def suggestions_of_Inr example_of_Inr split: option.splits)

text \<open>
  C10, as the code has it: when the leftmost occurrence of \<open>Suggestions\<close> in a reply
  (letter case ignored) is followed, after whitespace only, by the marker
  \<open>Example of rewritten section\<close>, the suggestions field is the empty string, and the
  handler, once it has this reply, answers with the incomplete-analysis error and status
  500: an empty field counts as a missing one.
\<close>

theorem suggestions_empty_before_example:
  assumes "ci_find ''Suggestions'' reply = Some k"
    and "drop (k + length ''Suggestions'') reply = ws @ t"
    and "\<forall>c\<in>set ws. is_space c"
    and "ci_prefix ''Example of rewritten section'' t"
  shows "suggestions_of reply = Inr (Some [])
         \<and> (fst (upload_ai_reply cfg w files) = Inr reply \<longrightarrow>
              fst (upload_resume cfg w files) =
                \<lparr>status = 500, body =
                   [(''error'', ''AI could not provide a complete analysis. Please try again.''),
                    (''raw_ai_output'', reply)]\<rparr>)"
proof -
  have s: "suggestions_of reply = Inr (Some [])"
    unfolding suggestions_of_Inr suggestions_search_empty [OF assms] by (simp add: strip_def)
  then have "parse_and_respond reply = incomplete_response reply"
    by (simp add: empty_field_incomplete)
  then show ?thesis
    using s by (auto simp: upload_resume_def incomplete_response_def split: prod.splits sum.splits)
qed

theorem suggestions_empty_before_example_witness:
  "suggestions_of reply_empty_suggestions = Inr (Some [])
   \<and> fst (upload_resume sample_config (sample_world reply_empty_suggestions) [''resume'' \<mapsto> ''cv.pdf'']) =
        \<lparr>status = 500, body =
           [(''error'', ''AI could not provide a complete analysis. Please try again.''),
            (''raw_ai_output'', reply_empty_suggestions)]\<rparr>"
proof -
  have k: "ci_find ''Suggestions'' reply_empty_suggestions = Some 10"
    by (simp add: reply_empty_suggestions_def lower_char_def char_eval)
  have d: "drop (10 + length ''Suggestions'') reply_empty_suggestions =
      ([CHR 0x0A] @ ''  '') @ (''Example of rewritten section:'' @ [CHR 0x0A] @ ''Rewritten text'')"
    by (simp add: reply_empty_suggestions_def)
  have ws: "\<forall>c\<in>set ([CHR 0x0A] @ ''  ''). is_space c"
    by (simp add: is_space_def)
  have e: "ci_prefix ''Example of rewritten section''
      (''Example of rewritten section:'' @ [CHR 0x0A] @ ''Rewritten text'')"
    by (simp add: lower_char_def)
  have s: "strip reply_empty_suggestions = reply_empty_suggestions"
    by (simp add: reply_empty_suggestions_def strip_def is_space_def)
  show ?thesis
    using suggestions_empty_before_example [OF k d ws e, of sample_config
        "sample_world reply_empty_suggestions" "[''resume'' \<mapsto> ''cv.pdf'']"]
      sample_upload_reply [OF s]
    by simp
qed

text \<open>
  In \<open>reply_two_suggestions\<close> the word \<open>Suggestions\<close> is directly followed by the marker
  of the rewritten section, but it is not the leftmost occurrence: the field starts after
  the first one, is not empty, and the answer is a success.
\<close>

lemma two_suggestions_rating: "search rating_re reply_two_suggestions = Some (Some ''8'')"
  by (simp add: reply_two_suggestions_def rating_re_def re_eval char_eval)

lemma two_suggestions_suggestions:
  "search suggestions_re reply_two_suggestions =
     Some (Some (''see below'' @ [CHR 0x0A] @ ''Suggestions'' @ [CHR 0x0A]))"
  by (simp add: reply_two_suggestions_def suggestions_re_def re_eval char_eval)

lemma two_suggestions_example: "search example_re reply_two_suggestions = Some (Some ''Rewritten text'')"
  by (simp add: reply_two_suggestions_def example_re_def re_eval char_eval)

lemma sample_upload:
  assumes "strip reply = reply"
  shows "fst (upload_resume sample_config (sample_world reply) [''resume'' \<mapsto> ''cv.pdf'']) =
           parse_and_respond reply"
  using sample_upload_reply [OF assms]
  by (auto simp: upload_resume_def split: prod.splits sum.splits)

theorem suggestions_not_leftmost_counterexample:
  "sublist (''Suggestions'' @ [CHR 0x0A] @ ''Example of rewritten section'') reply_two_suggestions
   \<and> fst (upload_resume sample_config (sample_world reply_two_suggestions) [''resume'' \<mapsto> ''cv.pdf'']) =
       \<lparr>status = 200, body =
          [(''ai_rating'', ''8''), (''ai_suggestions'', ''see below'' @ [CHR 0x0A] @ ''Suggestions''),
           (''ai_example'', ''Rewritten text''), (''raw_ai_output'', reply_two_suggestions)]\<rparr>"
proof -
  have c: "sublist (''Suggestions'' @ [CHR 0x0A] @ ''Example of rewritten section'') reply_two_suggestions"
    unfolding reply_two_suggestions_def by (rule sublist_appendI)
  have s: "strip reply_two_suggestions = reply_two_suggestions"
    by (simp add: reply_two_suggestions_def strip_def is_space_def)
  have p: "parse_and_respond reply_two_suggestions =
       \<lparr>status = 200, body =
          [(''ai_rating'', ''8''), (''ai_suggestions'', ''see below'' @ [CHR 0x0A] @ ''Suggestions''),
           (''ai_example'', ''Rewritten text''), (''raw_ai_output'', reply_two_suggestions)]\<rparr>"
    by (simp add: parse_and_respond_def rating_of_def suggestions_of_def example_of_def
        stripped_group_def two_suggestions_rating two_suggestions_suggestions two_suggestions_example
        strip_def is_space_def)
  show ?thesis
    using c p sample_upload [OF s] by simp
qed

section \<open>The rating field\<close>

text \<open>
  At \<open>Rating: \<close> followed by two digits the greedy parts of the pattern take the colon,
  the space and both digits; the match that \<open>search\<close> reports is the leftmost one.
\<close>

lemma rating_re_digits12:
  "rating_re = Seq (Lit ''Rating'') (Seq (Star Space) (Seq (Opt (OneOf '':-''))
     (Seq (Star Space) digits12)))"
  by (simp add: rating_re_def digits12_def)

lemma rating_two_digits:
  assumes "is_digit d1" and "is_digit d2"
  shows "\<exists>rest ms. matches rating_re (''Rating: '' @ d1 # d2 # post) = (Some [d1, d2], rest) # ms"
proof -
  have sp: "in_cls Space = is_space" by (rule ext) simp
  have nd: "\<not> is_space d1" using assms(1) by (auto simp: is_digit_def is_space_def Let_def)
  have c: "counts Digit 1 (Some 2) True (d1 # d2 # post) = [2, 1]"
    using assms by (simp add: counts_def Let_def)
  have g: "matches digits12 (d1 # d2 # post) = [(Some [d1, d2], post), (Some [d1], d2 # post)]"
    unfolding digits12_def matches.simps c by simp
  have t3: "takeWhile is_space (CHR '' '' # d1 # d2 # post) = '' ''"
    using nd by (simp add: is_space_def)
  have s3: "\<exists>ms. matches (Seq (Star Space) digits12) (CHR '' '' # d1 # d2 # post) = (Some [d1, d2], post) # ms"
    unfolding matches_Seq_Star_first sp t3 using g by simp
  have c2: "counts (OneOf '':-'') 0 (Some 1) True (CHR '':'' # CHR '' '' # d1 # d2 # post) = [1, 0]"
    by (simp add: counts_def Let_def)
  have s2: "\<exists>ms. matches (Seq (Opt (OneOf '':-'')) (Seq (Star Space) digits12))
              (CHR '':'' # CHR '' '' # d1 # d2 # post) = (Some [d1, d2], post) # ms"
    unfolding Opt_def matches_Seq_Rep c2 using s3 by auto
  have t1: "takeWhile is_space (CHR '':'' # CHR '' '' # d1 # d2 # post) = []"
    by (simp add: is_space_def)
  have s1: "\<exists>ms. matches (Seq (Star Space) (Seq (Opt (OneOf '':-'')) (Seq (Star Space) digits12)))
              (CHR '':'' # CHR '' '' # d1 # d2 # post) = (Some [d1, d2], post) # ms"
    unfolding matches_Seq_Star_first [of Space] sp t1 using s2 by auto
  have p: "ci_prefix ''Rating'' (''Rating: '' @ d1 # d2 # post)" by simp
  have d: "drop (length ''Rating'') (''Rating: '' @ d1 # d2 # post) = CHR '':'' # CHR '' '' # d1 # d2 # post"
    by simp
  show ?thesis
    unfolding rating_re_digits12 matches_Seq_Lit [of "''Rating''"] d using p s1 by auto
qed

lemma search_leftmost:
  assumes "\<forall>j<length pre. matches r (drop j (pre @ s)) = []"
    and "matches r s = (g, rest) # ms"
  shows "search r (pre @ s) = Some g"
proof -
  have "\<forall>j<length pre. matches r (drop j pre @ s) = []"
    using assms(1) by simp
  then have "search r (pre @ s) = search r s" by (rule search_skip)
  then show ?thesis using search_here [OF assms(2)] by simp
qed

lemma rating_of_two_digits:
  assumes "\<forall>j<length pre. matches rating_re (drop j (pre @ ''Rating: '' @ d1 # d2 # post)) = []"
    and "is_digit d1" and "is_digit d2"
  shows "rating_of (pre @ ''Rating: '' @ d1 # d2 # post) = Some [d1, d2]"
proof -
  obtain rest ms where "matches rating_re (''Rating: '' @ d1 # d2 # post) = (Some [d1, d2], rest) # ms"
    using rating_two_digits [OF assms(2,3)] by blast
  then have "search rating_re (pre @ ''Rating: '' @ d1 # d2 # post) = Some (Some [d1, d2])"
    using assms(1) by (rule search_leftmost [rotated])
  then show ?thesis by (simp add: rating_of_def)
qed

lemma no_match_before_word:
  assumes "ci_find ''Rating'' reply = Some (length pre)" and "reply = pre @ s"
  shows "\<forall>j<length pre. matches rating_re (drop j (pre @ s)) = []"
  using ci_find_Some [OF assms(1)] assms(2)
  unfolding rating_re_digits12 matches_Seq_Lit by simp

lemma r99_suggestions: "search suggestions_re reply_rating_99 = Some (Some (''- improve X'' @ [CHR 0x0A]))"
  by (simp add: reply_rating_99_def reply_tail_def suggestions_re_def re_eval char_eval)

lemma r99_example: "search example_re reply_rating_99 = Some (Some ''Rewritten text'')"
  by (simp add: reply_rating_99_def reply_tail_def example_re_def re_eval char_eval)

lemma r100_suggestions: "search suggestions_re reply_rating_100 = Some (Some (''- improve X'' @ [CHR 0x0A]))"
  by (simp add: reply_rating_100_def reply_tail_def suggestions_re_def re_eval char_eval)

lemma r100_example: "search example_re reply_rating_100 = Some (Some ''Rewritten text'')"
  by (simp add: reply_rating_100_def reply_tail_def example_re_def re_eval char_eval)

lemma upload_two_digit_rating:
  assumes "\<forall>j<length pre. matches rating_re (drop j (pre @ ''Rating: '' @ d1 # d2 # post)) = []"
    and "is_digit d1" and "is_digit d2"
    and "suggestions_of (pre @ ''Rating: '' @ d1 # d2 # post) = Inr (Some sg)" and "sg \<noteq> []"
    and "example_of (pre @ ''Rating: '' @ d1 # d2 # post) = Inr (Some ex)" and "ex \<noteq> []"
    and "fst (upload_ai_reply cfg w files) = Inr (pre @ ''Rating: '' @ d1 # d2 # post)"
  shows "fst (upload_resume cfg w files) =
          \<lparr>status = 200, body =
             [(''ai_rating'', [d1, d2]), (''ai_suggestions'', sg), (''ai_example'', ex),
              (''raw_ai_output'', pre @ ''Rating: '' @ d1 # d2 # post)]\<rparr>"
proof -
  have r: "rating_of (pre @ ''Rating: '' @ d1 # d2 # post) = Some [d1, d2]"
    using assms(1,2,3) by (rule rating_of_two_digits)
  have "parse_and_respond (pre @ ''Rating: '' @ d1 # d2 # post) =
          \<lparr>status = 200, body =
             [(''ai_rating'', [d1, d2]), (''ai_suggestions'', sg), (''ai_example'', ex),
              (''raw_ai_output'', pre @ ''Rating: '' @ d1 # d2 # post)]\<rparr>"
    unfolding parse_and_respond_def Let_def r assms(4) assms(6) using assms(5,7) by simp
  then show ?thesis
    using assms(8) by (auto simp: upload_resume_def split: prod.splits sum.splits)
qed

text \<open>
  C9, as the code has it: the rating is not checked against the scale from 1 to 10. When
  the leftmost match of the rating pattern in a reply is at \<open>Rating: 99\<close>, and the
  suggestions and the example are non-empty, the handler, once it has this reply, answers
  200 with \<open>ai_rating\<close> \<open>99\<close>; when the leftmost match is at \<open>Rating: 100\<close>, under the
  same conditions, it answers 200 with \<open>ai_rating\<close> \<open>10\<close>, the first two digits.
\<close>

theorem rating_not_validated:
  "((\<forall>j<length pre. matches rating_re (drop j (pre @ ''Rating: 99'' @ post)) = []) \<and>
    suggestions_of (pre @ ''Rating: 99'' @ post) = Inr (Some sg) \<and> sg \<noteq> [] \<and>
    example_of (pre @ ''Rating: 99'' @ post) = Inr (Some ex) \<and> ex \<noteq> [] \<and>
    fst (upload_ai_reply cfg w files) = Inr (pre @ ''Rating: 99'' @ post)
    \<longrightarrow> fst (upload_resume cfg w files) =
          \<lparr>status = 200, body =
             [(''ai_rating'', ''99''), (''ai_suggestions'', sg), (''ai_example'', ex),
              (''raw_ai_output'', pre @ ''Rating: 99'' @ post)]\<rparr>)
   \<and> ((\<forall>j<length pre. matches rating_re (drop j (pre @ ''Rating: 100'' @ post)) = []) \<and>
    suggestions_of (pre @ ''Rating: 100'' @ post) = Inr (Some sg) \<and> sg \<noteq> [] \<and>
    example_of (pre @ ''Rating: 100'' @ post) = Inr (Some ex) \<and> ex \<noteq> [] \<and>
    fst (upload_ai_reply cfg w files) = Inr (pre @ ''Rating: 100'' @ post)
    \<longrightarrow> fst (upload_resume cfg w files) =
          \<lparr>status = 200, body =
             [(''ai_rating'', ''10''), (''ai_suggestions'', sg), (''ai_example'', ex),
              (''raw_ai_output'', pre @ ''Rating: 100'' @ post)]\<rparr>)"
proof (intro conjI impI)
  assume a: "(\<forall>j<length pre. matches rating_re (drop j (pre @ ''Rating: 99'' @ post)) = []) \<and>
    suggestions_of (pre @ ''Rating: 99'' @ post) = Inr (Some sg) \<and> sg \<noteq> [] \<and>
    example_of (pre @ ''Rating: 99'' @ post) = Inr (Some ex) \<and> ex \<noteq> [] \<and>
    fst (upload_ai_reply cfg w files) = Inr (pre @ ''Rating: 99'' @ post)"
  have d: "is_digit CHR ''9''" by (simp add: is_digit_def)
  have "fst (upload_resume cfg w files) =
          \<lparr>status = 200, body =
             [(''ai_rating'', [CHR ''9'', CHR ''9'']), (''ai_suggestions'', sg), (''ai_example'', ex),
              (''raw_ai_output'', pre @ ''Rating: '' @ CHR ''9'' # CHR ''9'' # post)]\<rparr>"
    by (rule upload_two_digit_rating) (use a d in simp_all)
  then show "fst (upload_resume cfg w files) =
          \<lparr>status = 200, body =
             [(''ai_rating'', ''99''), (''ai_suggestions'', sg), (''ai_example'', ex),
              (''raw_ai_output'', pre @ ''Rating: 99'' @ post)]\<rparr>"
    by simp
next
  assume a: "(\<forall>j<length pre. matches rating_re (drop j (pre @ ''Rating: 100'' @ post)) = []) \<and>
    suggestions_of (pre @ ''Rating: 100'' @ post) = Inr (Some sg) \<and> sg \<noteq> [] \<and>
    example_of (pre @ ''Rating: 100'' @ post) = Inr (Some ex) \<and> ex \<noteq> [] \<and>
    fst (upload_ai_reply cfg w files) = Inr (pre @ ''Rating: 100'' @ post)"
  have d: "is_digit CHR ''1''" "is_digit CHR ''0''" by (simp_all add: is_digit_def)
  have "fst (upload_resume cfg w files) =
          \<lparr>status = 200, body =
             [(''ai_rating'', [CHR ''1'', CHR ''0'']), (''ai_suggestions'', sg), (''ai_example'', ex),
              (''raw_ai_output'', pre @ ''Rating: '' @ CHR ''1'' # CHR ''0'' # (CHR ''0'' # post))]\<rparr>"
    by (rule upload_two_digit_rating) (use a d in simp_all)
  then show "fst (upload_resume cfg w files) =
          \<lparr>status = 200, body =
             [(''ai_rating'', ''10''), (''ai_suggestions'', sg), (''ai_example'', ex),
              (''raw_ai_output'', pre @ ''Rating: 100'' @ post)]\<rparr>"
    by simp
qed

theorem rating_not_validated_witness:
  "fst (upload_resume sample_config (sample_world reply_rating_99) [''resume'' \<mapsto> ''cv.pdf'']) =
     \<lparr>status = 200, body =
        [(''ai_rating'', ''99''), (''ai_suggestions'', ''- improve X''), (''ai_example'', ''Rewritten text''),
         (''raw_ai_output'', reply_rating_99)]\<rparr>
   \<and> fst (upload_resume sample_config (sample_world reply_rating_100) [''resume'' \<mapsto> ''cv.pdf'']) =
     \<lparr>status = 200, body =
        [(''ai_rating'', ''10''), (''ai_suggestions'', ''- improve X''), (''ai_example'', ''Rewritten text''),
         (''raw_ai_output'', reply_rating_100)]\<rparr>"
proof -
  have k: "ci_find ''Rating'' reply_rating_99 = Some (length ''Overall '')"
    by (simp add: reply_rating_99_def reply_tail_def lower_char_def char_eval)
  have n: "\<forall>j<length ''Overall ''. matches rating_re (drop j (''Overall '' @ ''Rating: 99'' @ reply_tail)) = []"
    using no_match_before_word [OF k] by (simp add: reply_rating_99_def)
  have k2: "ci_find ''Rating'' reply_rating_100 = Some (length ''Overall '')"
    by (simp add: reply_rating_100_def reply_tail_def lower_char_def char_eval)
  have n2: "\<forall>j<length ''Overall ''. matches rating_re (drop j (''Overall '' @ ''Rating: 100'' @ reply_tail)) = []"
    using no_match_before_word [OF k2] by (simp add: reply_rating_100_def)
  have s: "strip reply_rating_99 = reply_rating_99"
    by (simp add: reply_rating_99_def reply_tail_def strip_def is_space_def)
  have s2: "strip reply_rating_100 = reply_rating_100"
    by (simp add: reply_rating_100_def reply_tail_def strip_def is_space_def)
  have sg: "suggestions_of reply_rating_99 = Inr (Some ''- improve X'')"
    by (simp add: suggestions_of_def stripped_group_def r99_suggestions strip_def is_space_def)
  have ex: "example_of reply_rating_99 = Inr (Some ''Rewritten text'')"
    by (simp add: example_of_def stripped_group_def r99_example strip_def is_space_def)
  have sg2: "suggestions_of reply_rating_100 = Inr (Some ''- improve X'')"
    by (simp add: suggestions_of_def stripped_group_def r100_suggestions strip_def is_space_def)
  have ex2: "example_of reply_rating_100 = Inr (Some ''Rewritten text'')"
    by (simp add: example_of_def stripped_group_def r100_example strip_def is_space_def)
  have u: "fst (upload_ai_reply sample_config (sample_world reply_rating_99) [''resume'' \<mapsto> ''cv.pdf'']) =
      Inr (''Overall '' @ ''Rating: 99'' @ reply_tail)"
    using sample_upload_reply [OF s] by (simp add: reply_rating_99_def)
  have u2: "fst (upload_ai_reply sample_config (sample_world reply_rating_100) [''resume'' \<mapsto> ''cv.pdf'']) =
      Inr (''Overall '' @ ''Rating: 100'' @ reply_tail)"
    using sample_upload_reply [OF s2] by (simp add: reply_rating_100_def)
  have a: "fst (upload_resume sample_config (sample_world reply_rating_99) [''resume'' \<mapsto> ''cv.pdf'']) =
     \<lparr>status = 200, body =
        [(''ai_rating'', ''99''), (''ai_suggestions'', ''- improve X''), (''ai_example'', ''Rewritten text''),
         (''raw_ai_output'', ''Overall '' @ ''Rating: 99'' @ reply_tail)]\<rparr>"
    using rating_not_validated [of "''Overall ''" reply_tail "''- improve X''" "''Rewritten text''"
        sample_config "sample_world reply_rating_99" "[''resume'' \<mapsto> ''cv.pdf'']"]
      n sg ex u
    unfolding reply_rating_99_def by simp
  have b: "fst (upload_resume sample_config (sample_world reply_rating_100) [''resume'' \<mapsto> ''cv.pdf'']) =
     \<lparr>status = 200, body =
        [(''ai_rating'', ''10''), (''ai_suggestions'', ''- improve X''), (''ai_example'', ''Rewritten text''),
         (''raw_ai_output'', ''Overall '' @ ''Rating: 100'' @ reply_tail)]\<rparr>"
    using rating_not_validated [of "''Overall ''" reply_tail "''- improve X''" "''Rewritten text''"
        sample_config "sample_world reply_rating_100" "[''resume'' \<mapsto> ''cv.pdf'']"]
      n2 sg2 ex2 u2
    unfolding reply_rating_100_def by simp
  show ?thesis using a b unfolding reply_rating_99_def reply_rating_100_def by simp
qed

text \<open>
  Two replies that contain \<open>Rating: 99\<close> and for which both other patterns match: in
  the first an earlier rating is reported, \<open>5\<close>; in the second the suggestions are empty
  and the answer is the error with status 500.
\<close>

lemma two_ratings_rating: "search rating_re reply_two_ratings = Some (Some ''5'')"
  by (simp add: reply_two_ratings_def reply_tail_def rating_re_def re_eval char_eval)

lemma two_ratings_suggestions:
  "search suggestions_re reply_two_ratings = Some (Some (''- improve X'' @ [CHR 0x0A]))"
  by (simp add: reply_two_ratings_def reply_tail_def suggestions_re_def re_eval char_eval)

lemma two_ratings_example: "search example_re reply_two_ratings = Some (Some ''Rewritten text'')"
  by (simp add: reply_two_ratings_def reply_tail_def example_re_def re_eval char_eval)

lemma empty_rating: "search rating_re reply_rating_99_empty = Some (Some ''99'')"
  by (simp add: reply_rating_99_empty_def rating_re_def re_eval char_eval)

lemma empty_suggestions: "search suggestions_re reply_rating_99_empty = Some (Some [])"
  by (simp add: reply_rating_99_empty_def suggestions_re_def re_eval char_eval)

lemma empty_example: "search example_re reply_rating_99_empty = Some (Some ''Rewritten text'')"
  by (simp add: reply_rating_99_empty_def example_re_def re_eval char_eval)

theorem rating_99_counterexample:
  "sublist ''Rating: 99'' reply_two_ratings
   \<and> fst (upload_resume sample_config (sample_world reply_two_ratings) [''resume'' \<mapsto> ''cv.pdf'']) =
       \<lparr>status = 200, body =
          [(''ai_rating'', ''5''), (''ai_suggestions'', ''- improve X''), (''ai_example'', ''Rewritten text''),
           (''raw_ai_output'', reply_two_ratings)]\<rparr>
   \<and> sublist ''Rating: 99'' reply_rating_99_empty
   \<and> search suggestions_re reply_rating_99_empty \<noteq> None
   \<and> search example_re reply_rating_99_empty \<noteq> None
   \<and> status (fst (upload_resume sample_config (sample_world reply_rating_99_empty) [''resume'' \<mapsto> ''cv.pdf''])) = 500"
proof -
  have c1: "sublist ''Rating: 99'' reply_two_ratings"
    unfolding reply_two_ratings_def by (rule sublist_appendI)
  have "sublist ''Rating: 99'' ([] @ ''Rating: 99'' @ ([CHR 0x0A] @ ''Suggestions:'' @ [CHR 0x0A] @
     ''Example of rewritten section:'' @ [CHR 0x0A] @ ''Rewritten text''))"
    by (rule sublist_appendI)
  then have c2: "sublist ''Rating: 99'' reply_rating_99_empty"
    by (simp add: reply_rating_99_empty_def)
  have s1: "strip reply_two_ratings = reply_two_ratings"
    by (simp add: reply_two_ratings_def reply_tail_def strip_def is_space_def)
  have s2: "strip reply_rating_99_empty = reply_rating_99_empty"
    by (simp add: reply_rating_99_empty_def strip_def is_space_def)
  have p1: "parse_and_respond reply_two_ratings =
       \<lparr>status = 200, body =
          [(''ai_rating'', ''5''), (''ai_suggestions'', ''- improve X''), (''ai_example'', ''Rewritten text''),
           (''raw_ai_output'', reply_two_ratings)]\<rparr>"
    by (simp add: parse_and_respond_def rating_of_def suggestions_of_def example_of_def
        stripped_group_def two_ratings_rating two_ratings_suggestions two_ratings_example
        strip_def is_space_def)
  have p2: "parse_and_respond reply_rating_99_empty = incomplete_response reply_rating_99_empty"
    by (simp add: parse_and_respond_def rating_of_def suggestions_of_def example_of_def
        stripped_group_def empty_rating empty_suggestions empty_example strip_def is_space_def)
  show ?thesis
    using c1 c2 p1 p2 sample_upload [OF s1] sample_upload [OF s2]
    by (simp add: empty_suggestions empty_example incomplete_response_def)
qed

section \<open>The text extractor: other extensions\<close>

text \<open>
  What \<open>splitext\<close> returns as extension is empty or the last dot of the path with
  the part after it.
\<close>

lemma rfind_drop:
  assumes "c \<in> set p"
  shows "drop (nat (rfind p c)) p = c # rev (takeWhile (\<lambda>x. x \<noteq> c) (rev p))"
proof -
  let ?tw = "takeWhile (\<lambda>x. x \<noteq> c) (rev p)"
  let ?dw = "dropWhile (\<lambda>x. x \<noteq> c) (rev p)"
  have ne: "?dw \<noteq> []" using assms by simp
  have "hd ?dw = c" using ne hd_dropWhile by (metis (mono_tags, lifting))
  then obtain rest where dw: "?dw = c # rest" using ne by (metis list.collapse)
  have "rev p = ?tw @ c # rest" using dw by (metis takeWhile_dropWhile_id)
  then have p: "p = rev rest @ c # rev ?tw" by (metis rev_append rev.simps(2) rev_rev_ident append.assoc append_Cons append_Nil)
  have len: "length p = length rest + 1 + length ?tw"
    by (subst p) simp
  have "nat (rfind p c) = length rest"
    using assms len by (simp add: rfind_def)
  then have "drop (nat (rfind p c)) p = drop (length (rev rest)) p" by simp
  also have "\<dots> = drop (length (rev rest)) (rev rest @ c # rev ?tw)" using p by simp
  also have "\<dots> = c # rev ?tw" by (simp only: drop_append drop_all) simp
  finally show ?thesis .
qed

lemma splitext_extension:
  "snd (splitext p) = [] \<or>
   (\<exists>e. last_dot_extension p = Some e \<and> snd (splitext p) = CHR ''.'' # e)"
proof (cases "rfind p CHR ''.'' > rfind p CHR ''/'' \<and>
    \<not> leading_dots_only p (nat (rfind p CHR ''/'' + 1)) (nat (rfind p CHR ''.''))")
  case False
  then show ?thesis by (auto simp: splitext_def Let_def)
next
  case True
  have "length (takeWhile (\<lambda>x. x \<noteq> CHR ''/'') (rev p)) \<le> length (rev p)"
    by (rule length_takeWhile_le)
  then have "rfind p CHR ''/'' \<ge> - 1" by (simp add: rfind_def)
  then have "rfind p CHR ''.'' \<noteq> - 1" using True by linarith
  then have dot: "CHR ''.'' \<in> set p" by (auto simp: rfind_def split: if_splits)
  have "snd (splitext p) = drop (nat (rfind p CHR ''.'')) p"
    using True by (simp add: splitext_def Let_def)
  then have "snd (splitext p) = CHR ''.'' # rev (takeWhile (\<lambda>x. x \<noteq> CHR ''.'') (rev p))"
    using rfind_drop [OF dot] by simp
  then show ?thesis using dot by (simp add: last_dot_extension_def)
qed

text \<open>
  C6, as the code has it: the extension is compared in lower case. For every path without
  a dot, or whose part after the last dot is, in lower case, neither \<open>pdf\<close> nor
  \<open>docx\<close>, the extractor returns the empty string and raises nothing, whatever the
  document libraries would do.
\<close>

theorem extract_other_extension:
  assumes "\<forall>e. last_dot_extension file_path = Some e \<longrightarrow> lower e \<noteq> ''pdf'' \<and> lower e \<noteq> ''docx''"
  shows "extract_resume_text lb file_path = Inr []"
proof -
  have dot: "lower_char CHR ''.'' = CHR ''.''" by (simp add: lower_char_def)
  have "lower (snd (splitext file_path)) \<noteq> ''.pdf'' \<and> lower (snd (splitext file_path)) \<noteq> ''.docx''"
  proof (rule disjE [OF splitext_extension [of file_path]])
    assume "snd (splitext file_path) = []"
    then show ?thesis by (simp add: lower_def)
  next
    assume "\<exists>e. last_dot_extension file_path = Some e \<and> snd (splitext file_path) = CHR ''.'' # e"
    then obtain e where e: "last_dot_extension file_path = Some e" "snd (splitext file_path) = CHR ''.'' # e"
      by blast
    have "lower e \<noteq> ''pdf'' \<and> lower e \<noteq> ''docx''" using assms e(1) by blast
    moreover have "lower (CHR ''.'' # e) = CHR ''.'' # lower e" using dot by (simp add: lower_def)
    ultimately show ?thesis using e(2) by simp
  qed
  then show ?thesis by (simp add: extract_resume_text_def Let_def)
qed

theorem extract_other_extension_witness:
  "last_dot_extension ''notes.txt'' = Some ''txt''
   \<and> extract_resume_text (documents (sample_world [])) ''notes.txt'' = Inr []"
proof -
  have e: "last_dot_extension ''notes.txt'' = Some ''txt''"
    by (simp add: last_dot_extension_def)
  have "\<forall>e. last_dot_extension ''notes.txt'' = Some e \<longrightarrow> lower e \<noteq> ''pdf'' \<and> lower e \<noteq> ''docx''"
    unfolding e by (simp add: lower_def lower_char_def char_eval)
  then show ?thesis
    using extract_other_extension [of "''notes.txt''" "documents (sample_world [])"] e by blast
qed

text \<open>
  The extension of \<open>resume.PDF\<close> is \<open>PDF\<close>, which is neither \<open>pdf\<close> nor
  \<open>docx\<close>, and the extractor returns the text of the PDF library.
\<close>

theorem extract_upper_case_counterexample:
  "last_dot_extension ''resume.PDF'' = Some ''PDF''
   \<and> ''PDF'' \<noteq> ''pdf'' \<and> ''PDF'' \<noteq> ''docx''
   \<and> extract_resume_text (documents (sample_world [])) ''resume.PDF'' = Inr ''Ten years of Java''"
  by (simp add: last_dot_extension_def extract_resume_text_def splitext_def rfind_def
      leading_dots_only.simps lower_def lower_char_def char_eval sample_world_def)

end
